theory Spec2Isabelle
  imports Main
begin

unbundle bit_operations_syntax

section \<open>HttpResponse.h: the per-connection HTTP response\<close>

text \<open>
  An \<open>HttpResponse\<close> is an \<open>AsyncSocket\<close> whose extension data is an
  \<open>HttpResponseData\<close>. The model keeps both in one record: the response data
  (\<open>state\<close>, \<open>offset\<close>, the callbacks), the loop's \<open>noMark\<close> switch, and the
  socket seen from the outside: what it will answer to the next writes (\<open>env\<close>) and the
  log of the calls made to it (\<open>trace\<close>).
\<close>

subsection \<open>Response data\<close>

text \<open>
  Modelled from the spec: HttpResponseData.h is not among the sources. Section 3 gives
  the progress flags as a set of independent bits; \<open>state & F\<close> is membership,
  \<open>state |= F\<close> is insertion and \<open>state &= ~F\<close> is removal.
\<close>

datatype http_flag =
    HTTP_STATUS_CALLED
  | HTTP_WRITE_CALLED
  | HTTP_END_CALLED
  | HTTP_RESPONSE_PENDING

text \<open>
  Every call site of \<open>Super::write\<close> in HttpResponse.h writes one element of the
  response. The log keeps, with the bytes, which element the call site writes; the tag is
  bookkeeping of the log only, nothing in the model reads it to decide anything.
  \<^item> \<open>Interim\<close>: the literal of \<open>writeContinue\<close>;
  \<^item> \<open>StatusLine\<close>: the three writes of \<open>writeStatus\<close>;
  \<^item> \<open>Header\<close>: the writes of both \<open>writeHeader\<close> overloads, and the
    \<open>Content-Length\<close> block or the bare CRLF that closes the head in \<open>internalEnd\<close>;
  \<^item> \<open>ChunkFrame\<close>: CRLF, hexadecimal size, CRLF in front of a chunk;
  \<^item> \<open>ChunkData\<close>: the payload of a chunk;
  \<^item> \<open>Body\<close>: the body writes of the loop of \<open>internalEnd\<close>;
  \<^item> \<open>Terminator\<close>: the literal terminating zero chunk of \<open>internalEnd\<close>.
\<close>

datatype part = Interim | StatusLine | Header | ChunkFrame | ChunkData | Body | Terminator

text \<open>
  A logged call: \<open>SockWrite p bytes optional written failed\<close> is a call
  \<open>Super::write(src, length, optional)\<close> that offered \<open>bytes\<close> and returned the pair
  \<open>{written, failed}\<close>; \<open>SockTimeout n\<close> is a call \<open>Super::timeout(n)\<close>.
\<close>

datatype event =
    SockWrite part string bool nat bool
  | SockTimeout nat

text \<open>
  A callback slot holds the number that names the handler put there, or nothing
  (\<open>nullptr\<close>).
\<close>

record response =
  state :: "http_flag set"
  offset :: nat
  onAborted :: "nat option"
  onWritable :: "nat option"
  inStream :: "nat option"
  noMark :: bool
  env :: "(nat \<times> bool) list"
  trace :: "event list"

text \<open>
  \<open>offset\<close> and every size are \<open>size_t\<close> in the source and natural numbers here: the
  counter could only wrap after \<open>2 ^ 64\<close> body bytes. The casts of a size to
  \<open>unsigned int\<close> and to \<open>int\<close> are written out.
\<close>

definition INT_MAX :: nat where
  "INT_MAX = 2147483647"

definition unsigned_int :: "nat \<Rightarrow> nat" where
  "unsigned_int n = n mod 2 ^ 32"

definition int_cast :: "nat \<Rightarrow> int" where
  "int_cast n = (let m = n mod 2 ^ 32 in if m < 2 ^ 31 then int m else int m - 2 ^ 32)"

definition HTTP_200_OK :: string where
  "HTTP_200_OK = ''200 OK''"

definition HTTP_TIMEOUT_S :: nat where
  "HTTP_TIMEOUT_S = 10"

definition CRLF :: string where
  "CRLF = [CHR 0x0D, CHR 0x0A]"

subsection \<open>The socket underneath\<close>

text \<open>
  Modelled from the spec: AsyncSocket.h (\<open>Super::write\<close>, \<open>Super::timeout\<close>) is not
  among the sources. Section 4.2 gives the contract
  \<open>attempt_write(bytes, is_optional) -> (bytes_accepted, failed)\<close>: a call either takes
  all the bytes it is offered or reports failure. What the transport does at each call is
  the environment's choice: \<open>env\<close> lists, for the coming calls, how many bytes it has room
  for and whether it reports failure anyway; when the list is used up the transport takes
  everything. The bytes offered are the first \<open>length\<close> bytes at \<open>src\<close> (none for a
  length that is not positive).
\<close>

definition answer :: "(nat \<times> bool) list \<Rightarrow> nat \<Rightarrow> nat \<times> bool" where
  "answer e n =
     (case e of
        [] \<Rightarrow> (n, False)
      | (room, fl) # _ \<Rightarrow> (min room n, fl \<or> room < n))"

definition Super_write :: "part \<Rightarrow> string \<Rightarrow> int \<Rightarrow> bool \<Rightarrow> response \<Rightarrow> (nat \<times> bool) \<times> response" where
  "Super_write p src len optional r =
     (let bytes = take (nat len) src;
          writtenFailed = answer (env r) (length bytes)
      in (writtenFailed,
          r\<lparr>env := tl (env r),
            trace := trace r @
              [SockWrite p bytes optional (fst writtenFailed) (snd writtenFailed)]\<rparr>))"

definition Super_timeout :: "nat \<Rightarrow> response \<Rightarrow> response" where
  "Super_timeout n r = r\<lparr>trace := trace r @ [SockTimeout n]\<rparr>"

text \<open>A call of \<open>Super::write\<close> whose result the caller drops.\<close>

definition put :: "part \<Rightarrow> string \<Rightarrow> int \<Rightarrow> response \<Rightarrow> response" where
  "put p src len r = snd (Super_write p src len False r)"

subsection \<open>Number formatting\<close>

text \<open>
  Modelled from the spec: Utilities.h (\<open>utils::u32toaHex\<close>, \<open>utils::u64toa\<close>) is not
  among the sources. Section 4.3: the chunk length is lowercase unsigned hexadecimal with
  no leading zeros beyond a single 0; section 6: the content length is decimal.
\<close>

definition hex_digit :: "nat \<Rightarrow> char" where
  "hex_digit d = ''0123456789abcdef'' ! d"

fun u32toaHex :: "nat \<Rightarrow> string" where
  "u32toaHex n = (if n < 16 then [hex_digit n] else u32toaHex (n div 16) @ [hex_digit (n mod 16)])"

declare u32toaHex.simps [simp del]

definition dec_digit :: "nat \<Rightarrow> char" where
  "dec_digit d = ''0123456789'' ! d"

fun u64toa :: "nat \<Rightarrow> string" where
  "u64toa n = (if n < 10 then [dec_digit n] else u64toa (n div 10) @ [dec_digit (n mod 10)])"

declare u64toa.simps [simp del]

subsection \<open>Private helpers\<close>

definition writeUnsignedHex :: "part \<Rightarrow> nat \<Rightarrow> response \<Rightarrow> response" where
  "writeUnsignedHex p v r = put p (u32toaHex v) (int (length (u32toaHex v))) r"

definition writeUnsigned64 :: "part \<Rightarrow> nat \<Rightarrow> response \<Rightarrow> response" where
  "writeUnsigned64 p v r = put p (u64toa v) (int (length (u64toa v))) r"

definition markDone :: "response \<Rightarrow> response" where
  "markDone r =
     r\<lparr>onAborted := None, onWritable := None,
       state := state r - {HTTP_RESPONSE_PENDING}\<rparr>"

subsection \<open>Status line and headers\<close>

definition writeContinue :: "response \<Rightarrow> response" where
  "writeContinue r = put Interim (''HTTP/1.1 100 Continue'' @ CRLF @ CRLF) 25 r"

definition writeStatus :: "string \<Rightarrow> response \<Rightarrow> response" where
  "writeStatus status r =
     (if HTTP_STATUS_CALLED \<in> state r then r
      else
        (let r1 = r\<lparr>state := insert HTTP_STATUS_CALLED (state r)\<rparr>;
             r2 = put StatusLine ''HTTP/1.1 '' 9 r1;
             r3 = put StatusLine status (int_cast (length status)) r2
         in put StatusLine CRLF 2 r3))"

text \<open>\<open>writeHeader(std::string_view key, std::string_view value)\<close>\<close>

definition writeHeader :: "string \<Rightarrow> string \<Rightarrow> response \<Rightarrow> response" where
  "writeHeader key val r =
     (let r1 = writeStatus HTTP_200_OK r;
          r2 = put Header key (int_cast (length key)) r1;
          r3 = put Header '': '' 2 r2;
          r4 = put Header val (int_cast (length val)) r3
      in put Header CRLF 2 r4)"

text \<open>\<open>writeHeader(std::string_view key, uint64_t value)\<close>\<close>

definition writeHeader_u64 :: "string \<Rightarrow> nat \<Rightarrow> response \<Rightarrow> response" where
  "writeHeader_u64 key v r =
     (let r1 = put Header key (int_cast (length key)) r;
          r2 = put Header '': '' 2 r1;
          r3 = writeUnsigned64 Header v r2
      in put Header CRLF 2 r3)"

text \<open>
  \<open>writeMark\<close>: compiled with \<open>UWS_HTTPRESPONSE_NO_WRITEMARK\<close> the function does
  nothing, as with \<open>noMark\<close> set.
\<close>

definition writeMark :: "response \<Rightarrow> response" where
  "writeMark r = (if \<not> noMark r then writeHeader ''uWebSockets'' ''18'' r else r)"

subsection \<open>Ending a response\<close>

text \<open>
  The loop of \<open>internalEnd\<close>: write as much as possible without causing backpressure,
  in pieces of at most \<open>INT_MAX\<close> bytes. The arguments \<open>written\<close> and \<open>failed\<close> are
  the loop's variables; the result is their final value and the response.
\<close>

function write_loop :: "string \<Rightarrow> bool \<Rightarrow> nat \<Rightarrow> bool \<Rightarrow> response \<Rightarrow> nat \<times> bool \<times> response" where
  "write_loop data optional written failed r =
     (if written < length data \<and> \<not> failed then
        (let writtenFailed =
               Super_write Body (drop written data)
                 (int (min (length data - written) INT_MAX)) optional r
         in write_loop data optional (written + fst (fst writtenFailed))
              (snd (fst writtenFailed)) (snd writtenFailed))
      else (written, failed, r))"
  by pat_completeness auto
termination
proof (relation "measure (\<lambda>(data, optional, written, failed, r).
          (length data - written) + (if failed then 0 else 1))", goal_cases)
  case 1
  show ?case by simp
next
  case (2 data optional written failed r writtenFailed)
  let ?n = "min (length data - written) INT_MAX"
  have pos: "0 < ?n" using 2(1) by (simp add: INT_MAX_def)
  have le: "fst (fst writtenFailed) \<le> ?n"
    and full: "\<not> snd (fst writtenFailed) \<Longrightarrow> fst (fst writtenFailed) = ?n"
    unfolding 2(2) by (auto simp: Super_write_def answer_def Let_def split: list.splits)
  show ?case
  proof (cases "snd (fst writtenFailed)")
    case True
    with 2(1) le show ?thesis by auto
  next
    case False
    with full pos 2(1) show ?thesis by auto
  qed
qed

declare write_loop.simps [simp del]

text \<open>
  \<open>internalEnd\<close> is written here in its three blocks. The first is the branch taken
  when \<open>HTTP_WRITE_CALLED\<close> is set: the last chunk, if there is data, and the
  terminating 0 chunk; \<open>optional\<close> is ignored in this path.
\<close>

definition end_chunked :: "string \<Rightarrow> response \<Rightarrow> bool \<times> response" where
  "end_chunked data r1 =
     (let r2 = (if length data \<noteq> 0 then
                  (let ra = put ChunkFrame CRLF 2 r1;
                       rb = writeUnsignedHex ChunkFrame (unsigned_int (length data)) ra;
                       rc = put ChunkFrame CRLF 2 rb
                   in put ChunkData data (int_cast (length data)) rc)
                else r1);
          r3 = put Terminator (CRLF @ ''0'' @ CRLF @ CRLF) 7 r2;
          r4 = markDone r3;
          r5 = Super_timeout HTTP_TIMEOUT_S r4
      in (True, r5))"

text \<open>The second block: write content-length on first call.\<close>

definition end_head :: "nat \<Rightarrow> bool \<Rightarrow> response \<Rightarrow> response" where
  "end_head totalSize allowContentLength r1 =
     (if HTTP_END_CALLED \<notin> state r1 then
        (let ra = writeMark r1;
             rb = (if allowContentLength then
                     (let rx = put Header ''Content-Length: '' 16 ra;
                          ry = writeUnsigned64 Header totalSize rx
                      in put Header (CRLF @ CRLF) 4 ry)
                   else put Header CRLF 2 ra)
         in rb\<lparr>state := insert HTTP_END_CALLED (state rb)\<rparr>)
      else r1)"

text \<open>
  The third block: the body loop, the offset, the timeout if we are now at the end or
  if we failed, and \<open>markDone\<close> if we reach the end.
\<close>

definition end_body :: "string \<Rightarrow> nat \<Rightarrow> bool \<Rightarrow> response \<Rightarrow> bool \<times> response" where
  "end_body data totalSize optional r2 =
     (let res = write_loop data optional 0 False r2;
          written = fst res;
          failed = fst (snd res);
          r3 = snd (snd res);
          r4 = r3\<lparr>offset := offset r3 + written\<rparr>;
          success = (written = length data \<and> \<not> failed);
          r5 = (if \<not> success \<or> offset r4 = totalSize
                then Super_timeout HTTP_TIMEOUT_S r4 else r4);
          r6 = (if offset r5 = totalSize then markDone r5 else r5)
      in (success, r6))"

definition internalEnd :: "string \<Rightarrow> nat \<Rightarrow> bool \<Rightarrow> bool \<Rightarrow> response \<Rightarrow> bool \<times> response" where
  "internalEnd data totalSize0 optional allowContentLength r0 =
     (let r1 = writeStatus HTTP_200_OK r0;
          totalSize = (if totalSize0 = 0 then length data else totalSize0)
      in if HTTP_WRITE_CALLED \<in> state r1 then end_chunked data r1
         else end_body data totalSize optional (end_head totalSize allowContentLength r1))"

text \<open>\<open>end(data)\<close>: the result of \<open>internalEnd\<close> is dropped.\<close>

definition end_response :: "string \<Rightarrow> response \<Rightarrow> response" where
  "end_response data r = snd (internalEnd data (length data) False True r)"

definition hasResponded :: "response \<Rightarrow> bool" where
  "hasResponded r = (HTTP_RESPONSE_PENDING \<notin> state r)"

text \<open>\<open>tryEnd(data, totalSize)\<close> returns \<open>{ok, hasResponded}\<close>.\<close>

definition tryEnd :: "string \<Rightarrow> nat \<Rightarrow> response \<Rightarrow> (bool \<times> bool) \<times> response" where
  "tryEnd data totalSize r =
     (let res = internalEnd data totalSize True True r
      in ((fst res, hasResponded (snd res)), snd res))"

subsection \<open>Chunked writes\<close>

text \<open>\<open>write(data)\<close>\<close>

definition write_response :: "string \<Rightarrow> response \<Rightarrow> bool \<times> response" where
  "write_response data r0 =
     (let r1 = writeStatus HTTP_200_OK r0
      in if length data = 0 then (True, r1)
         else
           (let r2 = (if HTTP_WRITE_CALLED \<notin> state r1 then
                        (let ra = writeMark r1;
                             rb = writeHeader ''Transfer-Encoding'' ''chunked'' ra
                         in rb\<lparr>state := insert HTTP_WRITE_CALLED (state rb)\<rparr>)
                      else r1);
                r3 = put ChunkFrame CRLF 2 r2;
                r4 = writeUnsignedHex ChunkFrame (unsigned_int (length data)) r3;
                r5 = put ChunkFrame CRLF 2 r4;
                writtenFailed = Super_write ChunkData data (int_cast (length data)) False r5;
                failed = snd (fst writtenFailed);
                r6 = snd writtenFailed;
                r7 = (if failed then Super_timeout HTTP_TIMEOUT_S r6 else r6)
            in (\<not> failed, r7)))"

definition getWriteOffset :: "response \<Rightarrow> nat" where
  "getWriteOffset r = offset r"

subsection \<open>Callback registry\<close>

definition set_onWritable :: "nat \<Rightarrow> response \<Rightarrow> response" where
  "set_onWritable h r = r\<lparr>onWritable := Some h\<rparr>"

definition set_onAborted :: "nat \<Rightarrow> response \<Rightarrow> response" where
  "set_onAborted h r = r\<lparr>onAborted := Some h\<rparr>"

definition onData :: "nat \<Rightarrow> response \<Rightarrow> response" where
  "onData h r = r\<lparr>inStream := Some h\<rparr>"

subsection \<open>Upgrade to WebSocket\<close>

text \<open>
  WebSocketExtensions.h, WebSocketHandshake.h and the header declaring the compression
  options are not among the sources. Their constants are taken as a parameter \<open>K\<close>,
  the extensions negotiator as a function from the wanted options and the client's offer to
  the negotiated options and the counter-offer, and \<open>WebSocketHandshake::generate\<close> as a
  function from the key to the accept token.
\<close>

record ws_consts =
  DISABLED :: int
  SHARED_COMPRESSOR :: int
  DEDICATED_COMPRESSOR :: int
  DEDICATED_COMPRESSOR_8KB :: int
  DEDICATED_COMPRESSOR_16KB :: int
  DEDICATED_COMPRESSOR_32KB :: int
  DEDICATED_COMPRESSOR_64KB :: int
  DEDICATED_COMPRESSOR_128KB :: int
  DEDICATED_COMPRESSOR_256KB :: int
  PERMESSAGE_DEFLATE :: int
  SERVER_NO_CONTEXT_TAKEOVER :: int
  CLIENT_NO_CONTEXT_TAKEOVER :: int

type_synonym negotiator = "int \<Rightarrow> string \<Rightarrow> int \<times> string"

text \<open>\<open>std::to_string(int)\<close>\<close>

definition to_string :: "int \<Rightarrow> string" where
  "to_string i = (if i < 0 then ''-'' @ u64toa (nat (- i)) else u64toa (nat i))"

text \<open>The options handed to \<open>ExtensionsNegotiator<true>\<close>.\<close>

definition wantedOptions :: "ws_consts \<Rightarrow> int \<Rightarrow> int" where
  "wantedOptions K compression =
     (let wanted = PERMESSAGE_DEFLATE K OR CLIENT_NO_CONTEXT_TAKEOVER K
      in if compression = SHARED_COMPRESSOR K
         then wanted OR SERVER_NO_CONTEXT_TAKEOVER K else wanted)"

text \<open>The \<open>switch\<close> over the configured compression; 3kb and 4kb are 9.\<close>

definition maxServerWindowBits :: "ws_consts \<Rightarrow> int \<Rightarrow> int" where
  "maxServerWindowBits K compression =
     (if compression = DEDICATED_COMPRESSOR_8KB K then 10
      else if compression = DEDICATED_COMPRESSOR_16KB K then 11
      else if compression = DEDICATED_COMPRESSOR_32KB K then 12
      else if compression = DEDICATED_COMPRESSOR_64KB K then 13
      else if compression = DEDICATED_COMPRESSOR_128KB K then 14
      else 9)"

text \<open>The counter-offer as it is written into \<open>Sec-WebSocket-Extensions\<close>.\<close>

definition extensionsHeader :: "ws_consts \<Rightarrow> int \<Rightarrow> string \<Rightarrow> string" where
  "extensionsHeader K compression offer =
     (if compression AND DEDICATED_COMPRESSOR K \<noteq> 0 \<and>
         compression \<noteq> DEDICATED_COMPRESSOR_256KB K
      then offer @ ''; server_max_window_bits='' @
             to_string (maxServerWindowBits K compression)
      else offer)"

text \<open>
  What the negotiation block of \<open>upgrade\<close> leaves behind: the options the negotiator
  was built with (none when it was not run), the value written as
  \<open>Sec-WebSocket-Extensions\<close> (none when the header is not written), and the two
  arguments of \<open>webSocket->init\<close>.
\<close>

record negotiation =
  wanted :: "int option"
  extensions :: "string option"
  perMessageDeflate :: bool
  compressOptions :: int

definition negotiate_compression :: "ws_consts \<Rightarrow> negotiator \<Rightarrow> int \<Rightarrow> string \<Rightarrow> negotiation" where
  "negotiate_compression K negotiate compression secWebSocketExtensions =
     (let n0 = \<lparr>wanted = None, extensions = None, perMessageDeflate = False,
                compressOptions = compression AND SHARED_COMPRESSOR K\<rparr>
      in if compression \<noteq> DISABLED K then
           (if length secWebSocketExtensions \<noteq> 0 then
              (let w = wantedOptions K compression;
                   negotiated = fst (negotiate w secWebSocketExtensions);
                   offer = snd (negotiate w secWebSocketExtensions);
                   n1 = n0\<lparr>wanted := Some w\<rparr>;
                   n2 = (if length offer \<noteq> 0
                         then n1\<lparr>extensions := Some (extensionsHeader K compression offer)\<rparr>
                         else n1);
                   n3 = (if negotiated AND PERMESSAGE_DEFLATE K \<noteq> 0
                         then n2\<lparr>perMessageDeflate := True\<rparr> else n2)
               in if negotiated AND SERVER_NO_CONTEXT_TAKEOVER K = 0
                  then n3\<lparr>compressOptions := compression\<rparr> else n3)
            else n0)
         else n0)"

text \<open>
  \<open>upgrade\<close> up to the call of \<open>webSocket->init(perMessageDeflate, compressOptions, ...)\<close>:
  the head of the 101 response is written and ended without a content length; what
  follows (adopting the socket, moving the backpressure, the open handler) is the
  transport's and the WebSocket's.
\<close>

definition upgrade :: "ws_consts \<Rightarrow> negotiator \<Rightarrow> (string \<Rightarrow> string) \<Rightarrow> int \<Rightarrow>
    string \<Rightarrow> string \<Rightarrow> string \<Rightarrow> response \<Rightarrow> negotiation \<times> response" where
  "upgrade K negotiate generate compression secWebSocketKey secWebSocketProtocol
       secWebSocketExtensions r0 =
     (let r1 = writeStatus ''101 Switching Protocols'' r0;
          r2 = writeHeader ''Upgrade'' ''websocket'' r1;
          r3 = writeHeader ''Connection'' ''Upgrade'' r2;
          r4 = writeHeader ''Sec-WebSocket-Accept'' (generate secWebSocketKey) r3;
          r5 = (if length secWebSocketProtocol \<noteq> 0
                then writeHeader ''Sec-WebSocket-Protocol''
                       (takeWhile (\<lambda>c. c \<noteq> CHR '','') secWebSocketProtocol) r4
                else r4);
          n = negotiate_compression K negotiate compression secWebSocketExtensions;
          r6 = (case extensions n of
                  Some offer \<Rightarrow> writeHeader ''Sec-WebSocket-Extensions'' offer r5
                | None \<Rightarrow> r5)
      in (n, snd (internalEnd [] 0 False False r6)))"

text \<open>
  What the theorem on the window bits asks of the missing constants: the labels of the
  \<open>switch\<close> and the 256KB tier are different values (labels of one \<open>switch\<close> always
  are).
\<close>

definition distinct_tiers :: "ws_consts \<Rightarrow> bool" where
  "distinct_tiers K =
     distinct [DEDICATED_COMPRESSOR_8KB K, DEDICATED_COMPRESSOR_16KB K,
       DEDICATED_COMPRESSOR_32KB K, DEDICATED_COMPRESSOR_64KB K,
       DEDICATED_COMPRESSOR_128KB K, DEDICATED_COMPRESSOR_256KB K]"

text \<open>
  One assignment of the constants, to run the model on: the sources do not give their
  values. The options are single bits, every dedicated tier carries the bit
  \<open>DEDICATED_COMPRESSOR\<close>, and \<open>SHARED_COMPRESSOR\<close> does not.
\<close>

definition example_consts :: ws_consts where
  "example_consts =
     \<lparr>DISABLED = 0, SHARED_COMPRESSOR = 1, DEDICATED_COMPRESSOR = 2,
      DEDICATED_COMPRESSOR_8KB = 6, DEDICATED_COMPRESSOR_16KB = 10,
      DEDICATED_COMPRESSOR_32KB = 14, DEDICATED_COMPRESSOR_64KB = 18,
      DEDICATED_COMPRESSOR_128KB = 22, DEDICATED_COMPRESSOR_256KB = 26,
      PERMESSAGE_DEFLATE = 1, SERVER_NO_CONTEXT_TAKEOVER = 2,
      CLIENT_NO_CONTEXT_TAKEOVER = 4\<rparr>"

text \<open>A negotiator that grants what the server wants and answers with a fixed offer.\<close>

definition granting :: negotiator where
  "granting w offer = (w, ''permessage-deflate'')"

subsection \<open>Sequences of calls\<close>

text \<open>
  Modelled from the spec: the code that creates the response data is not among the
  sources. Section 4.1: a response starts awaiting its status, pending, with nothing
  written; \<open>nm\<close> is the loop's \<open>noMark\<close> and \<open>e\<close> what the transport will answer.
\<close>

definition fresh :: "bool \<Rightarrow> (nat \<times> bool) list \<Rightarrow> response" where
  "fresh nm e =
     \<lparr>state = {HTTP_RESPONSE_PENDING}, offset = 0, onAborted = None, onWritable = None,
      inStream = None, noMark = nm, env = e, trace = []\<rparr>"

text \<open>
  The public calls on a response that stays an HTTP response. \<open>cork(handler)\<close> runs
  the calls of its handler between the socket's cork and uncork and is not a call of its
  own here; \<open>upgrade\<close> ends the life of the response and is applied to the response
  that a sequence leaves.
\<close>

datatype op =
    WriteContinue
  | WriteStatus string
  | WriteHeader string string
  | WriteHeaderU64 string nat
  | End string
  | TryEnd string nat
  | Write string
  | OnWritable nat
  | OnAborted nat
  | OnData nat

fun run_op :: "op \<Rightarrow> response \<Rightarrow> response" where
  "run_op WriteContinue r = writeContinue r"
| "run_op (WriteStatus status) r = writeStatus status r"
| "run_op (WriteHeader key val) r = writeHeader key val r"
| "run_op (WriteHeaderU64 key v) r = writeHeader_u64 key v r"
| "run_op (End data) r = end_response data r"
| "run_op (TryEnd data totalSize) r = snd (tryEnd data totalSize r)"
| "run_op (Write data) r = snd (write_response data r)"
| "run_op (OnWritable h) r = set_onWritable h r"
| "run_op (OnAborted h) r = set_onAborted h r"
| "run_op (OnData h) r = onData h r"

fun run :: "op list \<Rightarrow> response \<Rightarrow> response" where
  "run [] r = r"
| "run (c # cs) r = run cs (run_op c r)"

subsection \<open>Reading the log\<close>

fun is_timeout :: "event \<Rightarrow> bool" where
  "is_timeout (SockTimeout n) = True"
| "is_timeout (SockWrite p bytes optional written failed) = False"

fun offered :: "event \<Rightarrow> string" where
  "offered (SockWrite p bytes optional written failed) = bytes"
| "offered (SockTimeout n) = []"

fun written_as :: "part \<Rightarrow> event \<Rightarrow> bool" where
  "written_as q (SockWrite p bytes optional written failed) = (p = q)"
| "written_as q (SockTimeout n) = False"

fun accepted :: "event \<Rightarrow> nat" where
  "accepted (SockWrite p bytes optional written failed) = written"
| "accepted (SockTimeout n) = 0"

fun reported_failure :: "event \<Rightarrow> bool" where
  "reported_failure (SockWrite p bytes optional written failed) = failed"
| "reported_failure (SockTimeout n) = False"

text \<open>The number of times a timeout was armed.\<close>

definition timeouts :: "response \<Rightarrow> nat" where
  "timeouts r = length (filter is_timeout (trace r))"

text \<open>All the bytes handed to the socket, in order.\<close>

definition wire :: "response \<Rightarrow> string" where
  "wire r = concat (map offered (trace r))"

text \<open>The writes of one element of the response, in order.\<close>

definition writes_of :: "part \<Rightarrow> response \<Rightarrow> string list" where
  "writes_of q r = map offered (filter (written_as q) (trace r))"

text \<open>The number of bytes the transport accepted from the writes of one element.\<close>

definition accepted_of :: "part \<Rightarrow> response \<Rightarrow> nat" where
  "accepted_of q r = sum_list (map accepted (filter (written_as q) (trace r)))"

text \<open>The socket writes alone, without the timeouts.\<close>

definition socket_writes :: "response \<Rightarrow> event list" where
  "socket_writes r = filter (\<lambda>e. \<not> is_timeout e) (trace r)"

text \<open>
  The status line as \<open>writeStatus\<close> writes it, and the status that a call asks for:
  the one given to \<open>writeStatus\<close>, or the default 200 OK of a call that writes a header,
  a chunk or the end. The first such call of a sequence is the one whose status is sent.
\<close>

definition status_line :: "string \<Rightarrow> string list" where
  "status_line st = [''HTTP/1.1 '', take (nat (int_cast (length st))) st, CRLF]"

fun status_of :: "op \<Rightarrow> string option" where
  "status_of (WriteStatus st) = Some st"
| "status_of (WriteHeader key val) = Some HTTP_200_OK"
| "status_of (End data) = Some HTTP_200_OK"
| "status_of (TryEnd data totalSize) = Some HTTP_200_OK"
| "status_of (Write data) = Some HTTP_200_OK"
| "status_of WriteContinue = None"
| "status_of (WriteHeaderU64 key v) = None"
| "status_of (OnWritable h) = None"
| "status_of (OnAborted h) = None"
| "status_of (OnData h) = None"

fun first_status :: "op list \<Rightarrow> string option" where
  "first_status [] = None"
| "first_status (c # cs) = (case status_of c of Some st \<Rightarrow> Some st | None \<Rightarrow> first_status cs)"

text \<open>The calls that end a response: \<open>end\<close> and \<open>tryEnd\<close>.\<close>

fun is_end :: "op \<Rightarrow> bool" where
  "is_end (End data) = True"
| "is_end (TryEnd data totalSize) = True"
| "is_end WriteContinue = False"
| "is_end (WriteStatus status) = False"
| "is_end (WriteHeader key val) = False"
| "is_end (WriteHeaderU64 key v) = False"
| "is_end (Write data) = False"
| "is_end (OnWritable h) = False"
| "is_end (OnAborted h) = False"
| "is_end (OnData h) = False"

text \<open>The body bytes that a call passes.\<close>

fun payload :: "op \<Rightarrow> string" where
  "payload (End data) = data"
| "payload (TryEnd data totalSize) = data"
| "payload (Write data) = data"
| "payload WriteContinue = []"
| "payload (WriteStatus status) = []"
| "payload (WriteHeader key val) = []"
| "payload (WriteHeaderU64 key v) = []"
| "payload (OnWritable h) = []"
| "payload (OnAborted h) = []"
| "payload (OnData h) = []"

text \<open>The literal that \<open>internalEnd\<close> writes last in chunked mode.\<close>

definition terminating_chunk :: string where
  "terminating_chunk = CRLF @ ''0'' @ CRLF @ CRLF"

text \<open>
  A transport that takes the head and the first chunk of a response and is saturated
  from then on.
\<close>

definition busy :: "(nat \<times> bool) list" where
  "busy =
     [(100, False), (100, False), (100, False), (100, False), (100, False), (100, False),
      (100, False), (100, False), (100, False), (100, False), (100, False),
      (0, True), (0, True), (0, True), (0, True), (0, True)]"


section \<open>Effects of the helpers\<close>

lemma Super_write_simps [simp]:
  "state (snd (Super_write p src len opt r)) = state r"
  "offset (snd (Super_write p src len opt r)) = offset r"
  "onAborted (snd (Super_write p src len opt r)) = onAborted r"
  "onWritable (snd (Super_write p src len opt r)) = onWritable r"
  "inStream (snd (Super_write p src len opt r)) = inStream r"
  "noMark (snd (Super_write p src len opt r)) = noMark r"
  "env (snd (Super_write p src len opt r)) = tl (env r)"
  "trace (snd (Super_write p src len opt r)) =
     trace r @ [SockWrite p (take (nat len) src) opt
        (fst (answer (env r) (length (take (nat len) src))))
        (snd (answer (env r) (length (take (nat len) src))))]"
  "fst (Super_write p src len opt r) = answer (env r) (length (take (nat len) src))"
  by (simp_all add: Super_write_def Let_def)

lemma put_simps [simp]:
  "state (put p src len r) = state r"
  "offset (put p src len r) = offset r"
  "onAborted (put p src len r) = onAborted r"
  "onWritable (put p src len r) = onWritable r"
  "inStream (put p src len r) = inStream r"
  "noMark (put p src len r) = noMark r"
  "env (put p src len r) = tl (env r)"
  "trace (put p src len r) =
     trace r @ [SockWrite p (take (nat len) src) False
        (fst (answer (env r) (length (take (nat len) src))))
        (snd (answer (env r) (length (take (nat len) src))))]"
  by (simp_all add: put_def)

lemma Super_timeout_simps [simp]:
  "state (Super_timeout n r) = state r"
  "offset (Super_timeout n r) = offset r"
  "onAborted (Super_timeout n r) = onAborted r"
  "onWritable (Super_timeout n r) = onWritable r"
  "inStream (Super_timeout n r) = inStream r"
  "noMark (Super_timeout n r) = noMark r"
  "env (Super_timeout n r) = env r"
  "trace (Super_timeout n r) = trace r @ [SockTimeout n]"
  by (simp_all add: Super_timeout_def)

lemma markDone_simps [simp]:
  "state (markDone r) = state r - {HTTP_RESPONSE_PENDING}"
  "offset (markDone r) = offset r"
  "onAborted (markDone r) = None"
  "onWritable (markDone r) = None"
  "inStream (markDone r) = inStream r"
  "noMark (markDone r) = noMark r"
  "env (markDone r) = env r"
  "trace (markDone r) = trace r"
  by (simp_all add: markDone_def)

lemma write_loop_stop:
  "\<not> (w < length d \<and> \<not> f) \<Longrightarrow> write_loop d opt w f r = (w, f, r)"
  by (subst write_loop.simps) auto

lemma write_loop_step:
  "w < length d \<and> \<not> f \<Longrightarrow>
   write_loop d opt w f r =
     write_loop d opt (w + fst (answer (env r) (min (length d - w) INT_MAX)))
       (snd (answer (env r) (min (length d - w) INT_MAX)))
       (snd (Super_write Body (drop w d) (int (min (length d - w) INT_MAX)) opt r))"
  by (subst write_loop.simps) (simp add: Let_def)

lemma write_loop_fields:
  "state (snd (snd (write_loop d opt w f r))) = state r \<and>
   offset (snd (snd (write_loop d opt w f r))) = offset r \<and>
   onAborted (snd (snd (write_loop d opt w f r))) = onAborted r \<and>
   onWritable (snd (snd (write_loop d opt w f r))) = onWritable r \<and>
   inStream (snd (snd (write_loop d opt w f r))) = inStream r \<and>
   noMark (snd (snd (write_loop d opt w f r))) = noMark r"
proof (induction d opt w f r rule: write_loop.induct)
  case (1 d opt w f r)
  show ?case
  proof (cases "w < length d \<and> \<not> f")
    case True
    from 1 [OF True refl] show ?thesis
      by (simp add: write_loop_step [OF True])
  next
    case False
    then show ?thesis
      by (simp add: write_loop_stop)
  qed
qed

lemma write_loop_trace:
  "\<exists>evs. trace (snd (snd (write_loop d opt w f r))) = trace r @ evs \<and>
         (\<forall>e \<in> set evs. written_as Body e) \<and>
         fst (write_loop d opt w f r) = w + sum_list (map accepted evs) \<and>
         fst (snd (write_loop d opt w f r)) = (f \<or> (\<exists>e \<in> set evs. reported_failure e))"
proof (induction d opt w f r rule: write_loop.induct)
  case (1 d opt w f r)
  show ?case
  proof (cases "w < length d \<and> \<not> f")
    case True
    define a where "a = answer (env r) (min (length d - w) INT_MAX)"
    define r1 where "r1 = snd (Super_write Body (drop w d) (int (min (length d - w) INT_MAX)) opt r)"
    define e where "e = SockWrite Body (take (min (length d - w) INT_MAX) (drop w d)) opt (fst a) (snd a)"
    have step: "write_loop d opt w f r = write_loop d opt (w + fst a) (snd a) r1"
      using write_loop_step [OF True] by (simp add: a_def r1_def)
    have tr1: "trace r1 = trace r @ [e]"
      by (simp add: r1_def e_def a_def)
    have "\<exists>evs. trace (snd (snd (write_loop d opt (w + fst a) (snd a) r1))) = trace r1 @ evs \<and>
         (\<forall>e \<in> set evs. written_as Body e) \<and>
         fst (write_loop d opt (w + fst a) (snd a) r1) = w + fst a + sum_list (map accepted evs) \<and>
         fst (snd (write_loop d opt (w + fst a) (snd a) r1)) = (snd a \<or> (\<exists>e \<in> set evs. reported_failure e))"
      using 1 [OF True refl] by (simp add: a_def r1_def)
    then obtain evs where
      evs: "trace (snd (snd (write_loop d opt (w + fst a) (snd a) r1))) = trace r1 @ evs"
      and body: "\<forall>e \<in> set evs. written_as Body e"
      and acc: "fst (write_loop d opt (w + fst a) (snd a) r1) = w + fst a + sum_list (map accepted evs)"
      and fl: "fst (snd (write_loop d opt (w + fst a) (snd a) r1)) = (snd a \<or> (\<exists>e \<in> set evs. reported_failure e))"
      by blast
    have "trace (snd (snd (write_loop d opt w f r))) = trace r @ (e # evs)"
      using evs tr1 step by simp
    moreover have "\<forall>x \<in> set (e # evs). written_as Body x"
      using body by (simp add: e_def)
    moreover have "fst (write_loop d opt w f r) = w + sum_list (map accepted (e # evs))"
      using acc step by (simp add: e_def)
    moreover have "fst (snd (write_loop d opt w f r)) = (f \<or> (\<exists>x \<in> set (e # evs). reported_failure x))"
      using fl step True by (simp add: e_def)
    ultimately show ?thesis by (intro exI [of _ "e # evs"] conjI)
  next
    case False
    then show ?thesis
      by (intro exI [of _ "[]"]) (simp add: write_loop_stop)
  qed
qed

lemma writeStatus_simps [simp]:
  "state (writeStatus st r) = insert HTTP_STATUS_CALLED (state r)"
  "offset (writeStatus st r) = offset r"
  "onAborted (writeStatus st r) = onAborted r"
  "onWritable (writeStatus st r) = onWritable r"
  "inStream (writeStatus st r) = inStream r"
  "noMark (writeStatus st r) = noMark r"
  by (auto simp: writeStatus_def Let_def)

lemma writeStatus_again: "HTTP_STATUS_CALLED \<in> state r \<Longrightarrow> writeStatus st r = r"
  by (simp add: writeStatus_def)

lemma writeHeader_simps [simp]:
  "state (writeHeader k v r) = insert HTTP_STATUS_CALLED (state r)"
  "offset (writeHeader k v r) = offset r"
  "onAborted (writeHeader k v r) = onAborted r"
  "onWritable (writeHeader k v r) = onWritable r"
  "inStream (writeHeader k v r) = inStream r"
  "noMark (writeHeader k v r) = noMark r"
  by (simp_all add: writeHeader_def Let_def)

lemma writeUnsigned64_simps [simp]:
  "state (writeUnsigned64 p v r) = state r"
  "offset (writeUnsigned64 p v r) = offset r"
  "onAborted (writeUnsigned64 p v r) = onAborted r"
  "onWritable (writeUnsigned64 p v r) = onWritable r"
  "inStream (writeUnsigned64 p v r) = inStream r"
  "noMark (writeUnsigned64 p v r) = noMark r"
  by (simp_all add: writeUnsigned64_def)

lemma writeUnsignedHex_simps [simp]:
  "state (writeUnsignedHex p v r) = state r"
  "offset (writeUnsignedHex p v r) = offset r"
  "onAborted (writeUnsignedHex p v r) = onAborted r"
  "onWritable (writeUnsignedHex p v r) = onWritable r"
  "inStream (writeUnsignedHex p v r) = inStream r"
  "noMark (writeUnsignedHex p v r) = noMark r"
  by (simp_all add: writeUnsignedHex_def)

lemma writeMark_simps [simp]:
  "HTTP_STATUS_CALLED \<in> state r \<Longrightarrow> state (writeMark r) = state r"
  "offset (writeMark r) = offset r"
  "onAborted (writeMark r) = onAborted r"
  "onWritable (writeMark r) = onWritable r"
  "inStream (writeMark r) = inStream r"
  "noMark (writeMark r) = noMark r"
  by (auto simp: writeMark_def)

lemma write_loop_simps [simp]:
  "state (snd (snd (write_loop d opt w f r))) = state r"
  "offset (snd (snd (write_loop d opt w f r))) = offset r"
  "onAborted (snd (snd (write_loop d opt w f r))) = onAborted r"
  "onWritable (snd (snd (write_loop d opt w f r))) = onWritable r"
  "inStream (snd (snd (write_loop d opt w f r))) = inStream r"
  "noMark (snd (snd (write_loop d opt w f r))) = noMark r"
  using write_loop_fields [of d opt w f r] by simp_all

subsection \<open>Timeouts\<close>

lemma timeouts_simps [simp]:
  "timeouts (snd (Super_write p src len opt r)) = timeouts r"
  "timeouts (put p src len r) = timeouts r"
  "timeouts (Super_timeout n r) = Suc (timeouts r)"
  "timeouts (markDone r) = timeouts r"
  "timeouts (r\<lparr>state := s\<rparr>) = timeouts r"
  "timeouts (r\<lparr>offset := k\<rparr>) = timeouts r"
  by (simp_all add: timeouts_def)

lemma timeouts_writeStatus [simp]: "timeouts (writeStatus st r) = timeouts r"
  by (simp add: writeStatus_def Let_def)

lemma timeouts_writeHeader [simp]: "timeouts (writeHeader k v r) = timeouts r"
  by (simp add: writeHeader_def Let_def)

lemma timeouts_writeUnsigned64 [simp]: "timeouts (writeUnsigned64 p v r) = timeouts r"
  by (simp add: writeUnsigned64_def)

lemma timeouts_writeUnsignedHex [simp]: "timeouts (writeUnsignedHex p v r) = timeouts r"
  by (simp add: writeUnsignedHex_def)

lemma timeouts_writeMark [simp]: "timeouts (writeMark r) = timeouts r"
  by (simp add: writeMark_def)

lemma timeouts_write_loop [simp]: "timeouts (snd (snd (write_loop d opt w f r))) = timeouts r"
proof -
  obtain evs where "trace (snd (snd (write_loop d opt w f r))) = trace r @ evs"
    and "\<forall>e \<in> set evs. written_as Body e"
    using write_loop_trace [of d opt w f r] by blast
  moreover have "filter is_timeout evs = []" if "\<forall>e \<in> set evs. written_as Body e" for evs
    using that by (induction evs) (auto elim: written_as.elims)
  ultimately show ?thesis by (simp add: timeouts_def)
qed

subsection \<open>The three blocks of internalEnd\<close>

lemma end_head_simps [simp]:
  "HTTP_STATUS_CALLED \<in> state r \<Longrightarrow> state (end_head t acl r) = insert HTTP_END_CALLED (state r)"
  "offset (end_head t acl r) = offset r"
  "onAborted (end_head t acl r) = onAborted r"
  "onWritable (end_head t acl r) = onWritable r"
  "inStream (end_head t acl r) = inStream r"
  "noMark (end_head t acl r) = noMark r"
  "timeouts (end_head t acl r) = timeouts r"
  by (auto simp: end_head_def Let_def)

lemma internalEnd_fixed:
  "HTTP_WRITE_CALLED \<notin> state r \<Longrightarrow>
   internalEnd data totalSize optional acl r =
     end_body data (if totalSize = 0 then length data else totalSize) optional
       (end_head (if totalSize = 0 then length data else totalSize) acl
          (writeStatus HTTP_200_OK r))"
  by (simp add: internalEnd_def Let_def)

lemma internalEnd_chunked:
  "HTTP_WRITE_CALLED \<in> state r \<Longrightarrow>
   internalEnd data totalSize optional acl r = end_chunked data (writeStatus HTTP_200_OK r)"
  by (simp add: internalEnd_def Let_def)


lemma end_body_offset:
  "offset (snd (end_body data tot optional r)) =
     offset r + fst (write_loop data optional 0 False r)"
  by (simp add: end_body_def Let_def)



lemma end_chunked_done:
  "fst (end_chunked data r) \<and>
   onAborted (snd (end_chunked data r)) = None \<and>
   onWritable (snd (end_chunked data r)) = None \<and>
   HTTP_RESPONSE_PENDING \<notin> state (snd (end_chunked data r))"
  by (simp add: end_chunked_def Let_def)


lemma fresh_simps [simp]:
  "state (fresh nm e) = {HTTP_RESPONSE_PENDING}"
  "offset (fresh nm e) = 0"
  "onAborted (fresh nm e) = None"
  "onWritable (fresh nm e) = None"
  "inStream (fresh nm e) = None"
  "noMark (fresh nm e) = nm"
  "env (fresh nm e) = e"
  "trace (fresh nm e) = []"
  by (simp_all add: fresh_def)

subsection \<open>Writes of one element\<close>

lemma writes_of_simps [simp]:
  "writes_of q (snd (Super_write p src len opt r)) =
     writes_of q r @ (if p = q then [take (nat len) src] else [])"
  "writes_of q (put p src len r) = writes_of q r @ (if p = q then [take (nat len) src] else [])"
  "writes_of q (Super_timeout n r) = writes_of q r"
  "writes_of q (markDone r) = writes_of q r"
  "writes_of q (r\<lparr>state := s\<rparr>) = writes_of q r"
  "writes_of q (r\<lparr>offset := k\<rparr>) = writes_of q r"
  "writes_of q (r\<lparr>onWritable := h\<rparr>) = writes_of q r"
  "writes_of q (r\<lparr>onAborted := h\<rparr>) = writes_of q r"
  "writes_of q (r\<lparr>inStream := h\<rparr>) = writes_of q r"
  by (simp_all add: writes_of_def)

lemma writes_of_writeUnsigned [simp]:
  "writes_of q (writeUnsigned64 p v r) = writes_of q r @ (if p = q then [u64toa v] else [])"
  "writes_of q (writeUnsignedHex p v r) = writes_of q r @ (if p = q then [u32toaHex v] else [])"
  by (simp_all add: writeUnsigned64_def writeUnsignedHex_def)

text \<open>The bytes that a \<open>string_view\<close> hands to the socket after the cast of its length.\<close>

lemma sized_small: "length s \<le> INT_MAX \<Longrightarrow> take (nat (int_cast (length s))) s = s"
  by (simp add: int_cast_def INT_MAX_def Let_def)

lemma writes_of_writeStatus:
  "writes_of q (writeStatus st r) =
     writes_of q r @
       (if q = StatusLine \<and> HTTP_STATUS_CALLED \<notin> state r
        then [''HTTP/1.1 '', take (nat (int_cast (length st))) st, CRLF] else [])"
  by (simp add: writeStatus_def Let_def CRLF_def)

lemma writes_of_writeHeader:
  "writes_of q (writeHeader k v r) =
     writes_of q (writeStatus HTTP_200_OK r) @
       (if q = Header
        then [take (nat (int_cast (length k))) k, '': '', take (nat (int_cast (length v))) v, CRLF]
        else [])"
  by (simp add: writeHeader_def Let_def CRLF_def)

lemma writes_of_writeHeader_u64:
  "writes_of q (writeHeader_u64 k v r) =
     writes_of q r @
       (if q = Header
        then [take (nat (int_cast (length k))) k, '': '', u64toa v, CRLF]
        else [])"
  by (simp add: writeHeader_u64_def Let_def CRLF_def)

lemma writes_of_write_loop:
  "q \<noteq> Body \<Longrightarrow> writes_of q (snd (snd (write_loop d opt w f r))) = writes_of q r"
proof -
  assume q: "q \<noteq> Body"
  obtain evs where "trace (snd (snd (write_loop d opt w f r))) = trace r @ evs"
    and "\<forall>e \<in> set evs. written_as Body e"
    using write_loop_trace [of d opt w f r] by blast
  moreover have "filter (written_as q) evs = []" if "\<forall>e \<in> set evs. written_as Body e" for evs
    using that q by (induction evs) (auto elim: written_as.elims)
  ultimately show ?thesis by (simp add: writes_of_def)
qed

subsection \<open>The status line\<close>

lemma status_writeMark [simp]:
  "HTTP_STATUS_CALLED \<in> state r \<Longrightarrow> writes_of StatusLine (writeMark r) = writes_of StatusLine r"
  by (simp add: writeMark_def writes_of_writeHeader writes_of_writeStatus)

lemma status_end_head [simp]:
  "HTTP_STATUS_CALLED \<in> state r \<Longrightarrow>
   writes_of StatusLine (end_head t acl r) = writes_of StatusLine r"
  by (simp add: end_head_def Let_def)

lemma status_end_body [simp]:
  "writes_of StatusLine (snd (end_body d t opt r)) = writes_of StatusLine r"
  by (simp add: end_body_def Let_def writes_of_write_loop)

lemma status_end_chunked [simp]:
  "writes_of StatusLine (snd (end_chunked d r)) = writes_of StatusLine r"
  by (simp add: end_chunked_def Let_def)

lemma status_internalEnd:
  "writes_of StatusLine (snd (internalEnd d t opt acl r)) =
     writes_of StatusLine (writeStatus HTTP_200_OK r)"
  by (simp add: internalEnd_def Let_def)

lemma status_write_response:
  "writes_of StatusLine (snd (write_response d r)) =
     writes_of StatusLine (writeStatus HTTP_200_OK r)"
  by (simp add: write_response_def Let_def writes_of_writeHeader writes_of_writeStatus)

lemma state_end_body:
  "HTTP_STATUS_CALLED \<in> state r \<Longrightarrow> HTTP_STATUS_CALLED \<in> state (snd (end_body d t opt r))"
  by (simp add: end_body_def Let_def)

lemma state_end_chunked:
  "HTTP_STATUS_CALLED \<in> state r \<Longrightarrow> HTTP_STATUS_CALLED \<in> state (snd (end_chunked d r))"
  by (simp add: end_chunked_def Let_def)

lemma state_internalEnd: "HTTP_STATUS_CALLED \<in> state (snd (internalEnd d t opt acl r))"
  by (simp add: internalEnd_def Let_def state_end_body state_end_chunked)

lemma state_write_response: "HTTP_STATUS_CALLED \<in> state (snd (write_response d r))"
  by (simp add: write_response_def Let_def)

lemma run_append: "run (xs @ ys) r = run ys (run xs r)"
  by (induction xs arbitrary: r) simp_all

lemma state_setters [simp]:
  "state (writeContinue r) = state r"
  "state (writeHeader_u64 k v r) = state r"
  "state (set_onWritable h r) = state r"
  "state (set_onAborted h r) = state r"
  "state (onData h r) = state r"
  by (simp_all add: writeContinue_def writeHeader_u64_def set_onWritable_def set_onAborted_def
      onData_def Let_def)

lemma status_run_op:
  "writes_of StatusLine (run_op c r) =
     writes_of StatusLine r @
       (if HTTP_STATUS_CALLED \<in> state r then []
        else (case status_of c of None \<Rightarrow> [] | Some st \<Rightarrow> status_line st))"
  by (cases c)
    (simp_all add: writes_of_writeStatus writes_of_writeHeader writes_of_writeHeader_u64
      status_internalEnd status_write_response end_response_def tryEnd_def Let_def
      writeContinue_def set_onWritable_def set_onAborted_def onData_def status_line_def)

lemma status_flag_run_op:
  "(HTTP_STATUS_CALLED \<in> state (run_op c r)) =
     (HTTP_STATUS_CALLED \<in> state r \<or> status_of c \<noteq> None)"
  by (cases c)
    (simp_all add: state_internalEnd state_write_response end_response_def tryEnd_def Let_def)

lemma status_run:
  "writes_of StatusLine (run cs r) =
     writes_of StatusLine r @
       (if HTTP_STATUS_CALLED \<in> state r then []
        else (case first_status cs of None \<Rightarrow> [] | Some st \<Rightarrow> status_line st)) \<and>
   (HTTP_STATUS_CALLED \<in> state (run cs r)) =
     (HTTP_STATUS_CALLED \<in> state r \<or> first_status cs \<noteq> None)"
proof (induction cs arbitrary: r)
  case Nil
  show ?case by simp
next
  case (Cons c cs)
  show ?case
  proof (cases "HTTP_STATUS_CALLED \<in> state r")
    case True
    then show ?thesis
      using Cons [of "run_op c r"] by (simp add: status_run_op status_flag_run_op)
  next
    case False
    then show ?thesis
      using Cons [of "run_op c r"]
      by (cases "status_of c") (simp_all add: status_run_op status_flag_run_op)
  qed
qed

lemma terminator_end_chunked:
  "writes_of Terminator (snd (end_chunked data r)) = writes_of Terminator r @ [terminating_chunk]"
  by (simp add: end_chunked_def Let_def terminating_chunk_def CRLF_def)

lemma terminator_writeStatus [simp]:
  "writes_of Terminator (writeStatus st r) = writes_of Terminator r"
  by (simp add: writes_of_writeStatus)

text \<open>The definitions unfolded to run the model on a concrete response.\<close>

lemmas eval_defs =
  internalEnd_def end_chunked_def end_head_def end_body_def writeStatus_def writeHeader_def
  writeHeader_u64_def writeMark_def writeUnsigned64_def writeUnsignedHex_def writeContinue_def
  write_response_def end_response_def tryEnd_def hasResponded_def
  put_def Super_write_def Super_timeout_def markDone_def answer_def fresh_def
  HTTP_200_OK_def HTTP_TIMEOUT_S_def CRLF_def INT_MAX_def int_cast_def unsigned_int_def
  u64toa.simps u32toaHex.simps dec_digit_def hex_digit_def write_loop.simps
  Let_def

subsection \<open>The bytes on the wire\<close>

lemma wire_simps [simp]:
  "wire (snd (Super_write p src len opt r)) = wire r @ take (nat len) src"
  "wire (put p src len r) = wire r @ take (nat len) src"
  "wire (Super_timeout n r) = wire r"
  "wire (markDone r) = wire r"
  "wire (r\<lparr>state := s\<rparr>) = wire r"
  "wire (r\<lparr>offset := k\<rparr>) = wire r"
  "wire (writeUnsigned64 p v r) = wire r @ u64toa v"
  "wire (writeUnsignedHex p v r) = wire r @ u32toaHex v"
  by (simp_all add: wire_def writeUnsigned64_def writeUnsignedHex_def put_def)

subsection \<open>Hexadecimal sizes\<close>

lemma hex_digit_zero: "n < 16 \<Longrightarrow> (hex_digit n = CHR ''0'') = (n = 0)"
proof -
  assume "n < 16"
  then have "n \<in> {0, 1, 2, 3, 4, 5, 6, 7, 8, 9, 10, 11, 12, 13, 14, 15}"
    by (simp add: insert_iff) arith
  then show ?thesis
    by (auto simp: hex_digit_def)
qed

lemma u32toaHex_zero: "(u32toaHex n = ''0'') = (n = 0)"
proof (cases "n < 16")
  case True
  then show ?thesis
    by (simp add: u32toaHex.simps [of n] hex_digit_zero)
next
  case False
  then have "length (u32toaHex (n div 16)) \<ge> 1"
    by (subst u32toaHex.simps) simp
  with False show ?thesis
    by (auto simp: u32toaHex.simps [of n] dest: arg_cong [where f = length])
qed

subsection \<open>Chunked mode\<close>

lemma state_write_response_chunked:
  "HTTP_WRITE_CALLED \<in> state (snd (write_response d r)) =
     (HTTP_WRITE_CALLED \<in> state r \<or> d \<noteq> [])"
  by (simp add: write_response_def Let_def)

subsection \<open>Body bytes accepted\<close>

lemma accepted_of_simps [simp]:
  "accepted_of q (snd (Super_write p src len opt r)) =
     accepted_of q r + (if p = q then fst (answer (env r) (length (take (nat len) src))) else 0)"
  "accepted_of q (put p src len r) =
     accepted_of q r + (if p = q then fst (answer (env r) (length (take (nat len) src))) else 0)"
  "accepted_of q (Super_timeout n r) = accepted_of q r"
  "accepted_of q (markDone r) = accepted_of q r"
  "accepted_of q (r\<lparr>state := s\<rparr>) = accepted_of q r"
  "accepted_of q (r\<lparr>offset := k\<rparr>) = accepted_of q r"
  by (simp_all add: accepted_of_def)

lemma body_accepted_head [simp]:
  "accepted_of Body (writeStatus st r) = accepted_of Body r"
  "accepted_of Body (writeHeader k v r) = accepted_of Body r"
  "accepted_of Body (writeMark r) = accepted_of Body r"
  "accepted_of Body (writeUnsigned64 Header n r) = accepted_of Body r"
  "accepted_of Body (end_head t acl r) = accepted_of Body r"
  by (simp_all add: writeStatus_def writeHeader_def writeMark_def writeUnsigned64_def
      end_head_def Let_def)

lemma body_accepted_write_loop:
  "accepted_of Body (snd (snd (write_loop d opt w f r))) + w =
     accepted_of Body r + fst (write_loop d opt w f r)"
proof -
  obtain evs where tr: "trace (snd (snd (write_loop d opt w f r))) = trace r @ evs"
    and body: "\<forall>e \<in> set evs. written_as Body e"
    and acc: "fst (write_loop d opt w f r) = w + sum_list (map accepted evs)"
    using write_loop_trace [of d opt w f r] by blast
  from body have "filter (written_as Body) evs = evs"
    by (simp add: filter_id_conv)
  with tr acc show ?thesis
    by (simp add: accepted_of_def)
qed

lemma answer_le: "fst (answer e n) \<le> n"
  by (simp add: answer_def split: list.splits prod.splits)

lemma write_loop_le: "w \<le> length d \<Longrightarrow> fst (write_loop d opt w f r) \<le> length d"
proof (induction d opt w f r rule: write_loop.induct)
  case (1 d opt w f r)
  show ?case
  proof (cases "w < length d \<and> \<not> f")
    case True
    have "fst (answer (env r) (min (length d - w) INT_MAX)) \<le> length d - w"
      using answer_le [of "env r" "min (length d - w) INT_MAX"] by simp
    with True have "w + fst (answer (env r) (min (length d - w) INT_MAX)) \<le> length d"
      by arith
    with 1(1) [OF True refl] show ?thesis
      by (simp add: write_loop_step [OF True])
  next
    case False
    with 1(2) show ?thesis
      by (simp add: write_loop_stop)
  qed
qed

lemma end_body_body:
  "\<exists>w \<le> length d.
     offset (snd (end_body d t opt r)) = offset r + w \<and>
     accepted_of Body (snd (end_body d t opt r)) = accepted_of Body r + w"
proof -
  have "fst (write_loop d opt 0 False r) \<le> length d"
    by (rule write_loop_le) simp
  moreover have "accepted_of Body (snd (end_body d t opt r)) =
      accepted_of Body r + fst (write_loop d opt 0 False r)"
    using body_accepted_write_loop [of d opt 0 False r]
    by (simp add: end_body_def Let_def)
  ultimately show ?thesis
    by (intro exI [of _ "fst (write_loop d opt 0 False r)"]) (simp add: end_body_offset)
qed

lemma internalEnd_body:
  assumes "HTTP_WRITE_CALLED \<notin> state r"
  shows "\<exists>w \<le> length d.
     offset (snd (internalEnd d t opt acl r)) = offset r + w \<and>
     accepted_of Body (snd (internalEnd d t opt acl r)) = accepted_of Body r + w"
  using end_body_body [of d "if t = 0 then length d else t" opt
      "end_head (if t = 0 then length d else t) acl (writeStatus HTTP_200_OK r)"] assms
  by (simp add: internalEnd_fixed)

lemma state_end_body_flag:
  "F \<noteq> HTTP_RESPONSE_PENDING \<Longrightarrow> (F \<in> state (snd (end_body d t opt r))) = (F \<in> state r)"
  by (simp add: end_body_def Let_def)

lemma socket_writes_simps [simp]:
  "socket_writes (Super_timeout n r) = socket_writes r"
  "socket_writes (markDone r) = socket_writes r"
  "socket_writes (r\<lparr>state := s\<rparr>) = socket_writes r"
  "socket_writes (r\<lparr>offset := k\<rparr>) = socket_writes r"
  by (simp_all add: socket_writes_def)

lemma end_body_empty:
  "socket_writes (snd (end_body [] t opt r)) = socket_writes r \<and>
   wire (snd (end_body [] t opt r)) = wire r"
  by (simp add: end_body_def Let_def write_loop_stop)

lemma end_head_again: "HTTP_END_CALLED \<in> state r \<Longrightarrow> end_head t acl r = r"
  by (simp add: end_head_def)

lemma end_response_flags:
  "HTTP_WRITE_CALLED \<notin> state r \<Longrightarrow>
   HTTP_WRITE_CALLED \<notin> state (end_response d r) \<and>
   HTTP_STATUS_CALLED \<in> state (end_response d r) \<and>
   HTTP_END_CALLED \<in> state (end_response d r)"
  by (simp add: end_response_def internalEnd_fixed state_end_body_flag)

lemma end_response_again:
  assumes "HTTP_WRITE_CALLED \<notin> state r" and "HTTP_STATUS_CALLED \<in> state r"
    and "HTTP_END_CALLED \<in> state r"
  shows "socket_writes (end_response [] r) = socket_writes r \<and> wire (end_response [] r) = wire r"
  using assms end_body_empty [of 0 False r]
  by (simp add: end_response_def internalEnd_fixed writeStatus_again end_head_again)

lemma upgrade_negotiation:
  "fst (upgrade K negotiate generate compression key proto ext r) =
     negotiate_compression K negotiate compression ext"
  by (simp add: upgrade_def Let_def)

lemma or_and_absorb_int: "(a OR b) AND b = (b::int)"
  by (simp add: bit_eq_iff bit_and_iff bit_or_iff) blast

lemma wanted_client_no_context_takeover:
  "wantedOptions K compression AND CLIENT_NO_CONTEXT_TAKEOVER K = CLIENT_NO_CONTEXT_TAKEOVER K"
proof -
  have "((a OR b) OR c) AND b = b" for a b c :: int
    by (simp add: bit_eq_iff bit_and_iff bit_or_iff) blast
  then show ?thesis
    by (simp add: wantedOptions_def Let_def or_and_absorb_int)
qed

lemma to_string_bits:
  "to_string 9 = ''9''" "to_string 10 = ''10''" "to_string 11 = ''11''"
  "to_string 12 = ''12''" "to_string 13 = ''13''" "to_string 14 = ''14''"
  by (simp_all add: to_string_def u64toa.simps dec_digit_def)

subsection \<open>The log only grows\<close>

lemma grows_writeStatus: "\<exists>evs. trace (writeStatus st r) = trace r @ evs"
  by (simp add: writeStatus_def Let_def)

lemma grows_writeHeader: "\<exists>evs. trace (writeHeader k v r) = trace r @ evs"
  using grows_writeStatus [of HTTP_200_OK r] by (auto simp: writeHeader_def Let_def)

lemma grows_writeMark: "\<exists>evs. trace (writeMark r) = trace r @ evs"
  using grows_writeHeader [of "''uWebSockets''" "''18''" r] by (simp add: writeMark_def)

lemma grows_end_head: "\<exists>evs. trace (end_head t acl r) = trace r @ evs"
  using grows_writeMark [of r]
  by (auto simp: end_head_def Let_def writeUnsigned64_def)

lemma grows_end_body: "\<exists>evs. trace (snd (end_body d t opt r)) = trace r @ evs"
  using write_loop_trace [of d opt 0 False r]
  by (auto simp: end_body_def Let_def)

lemma grows_end_chunked: "\<exists>evs. trace (snd (end_chunked d r)) = trace r @ evs"
  by (simp add: end_chunked_def Let_def writeUnsignedHex_def)

lemma grows_internalEnd: "\<exists>evs. trace (snd (internalEnd d t opt acl r)) = trace r @ evs"
proof -
  obtain e1 where e1: "trace (writeStatus HTTP_200_OK r) = trace r @ e1"
    using grows_writeStatus by blast
  show ?thesis
  proof (cases "HTTP_WRITE_CALLED \<in> state r")
    case True
    with e1 grows_end_chunked [of d "writeStatus HTTP_200_OK r"] show ?thesis
      by (auto simp: internalEnd_chunked)
  next
    case False
    obtain e2 where "trace (end_head (if t = 0 then length d else t) acl (writeStatus HTTP_200_OK r)) =
        trace (writeStatus HTTP_200_OK r) @ e2"
      using grows_end_head by blast
    moreover obtain e3 where "trace (snd (end_body d (if t = 0 then length d else t) opt
          (end_head (if t = 0 then length d else t) acl (writeStatus HTTP_200_OK r)))) =
        trace (end_head (if t = 0 then length d else t) acl (writeStatus HTTP_200_OK r)) @ e3"
      using grows_end_body by blast
    ultimately show ?thesis
      using False e1 by (simp add: internalEnd_fixed)
  qed
qed

lemma upgrade_writes_extensions:
  assumes "extensions (negotiate_compression K negotiate compression ext) = Some v"
  shows "take (nat (int_cast (length v))) v \<in>
     set (writes_of Header (snd (upgrade K negotiate generate compression key proto ext r)))"
proof -
  define r5 where "r5 =
     (let r1 = writeStatus ''101 Switching Protocols'' r;
          r2 = writeHeader ''Upgrade'' ''websocket'' r1;
          r3 = writeHeader ''Connection'' ''Upgrade'' r2;
          r4 = writeHeader ''Sec-WebSocket-Accept'' (generate key) r3
      in if length proto \<noteq> 0
         then writeHeader ''Sec-WebSocket-Protocol'' (takeWhile (\<lambda>c. c \<noteq> CHR '','') proto) r4
         else r4)"
  have up: "snd (upgrade K negotiate generate compression key proto ext r) =
      snd (internalEnd [] 0 False False (writeHeader ''Sec-WebSocket-Extensions'' v r5))"
    using assms by (simp add: upgrade_def r5_def Let_def)
  obtain evs where "trace (snd (internalEnd [] 0 False False
        (writeHeader ''Sec-WebSocket-Extensions'' v r5))) =
      trace (writeHeader ''Sec-WebSocket-Extensions'' v r5) @ evs"
    using grows_internalEnd by blast
  then have "writes_of Header (snd (upgrade K negotiate generate compression key proto ext r)) =
      writes_of Header (writeHeader ''Sec-WebSocket-Extensions'' v r5) @
      map offered (filter (written_as Header) evs)"
    by (simp add: up writes_of_def)
  then show ?thesis
    by (simp add: writes_of_writeHeader)
qed

subsection \<open>Responses that stay out of chunked mode\<close>

lemma state_end_chunked_flag:
  "F \<noteq> HTTP_RESPONSE_PENDING \<Longrightarrow> (F \<in> state (snd (end_chunked d r))) = (F \<in> state r)"
  by (simp add: end_chunked_def Let_def)

lemma internalEnd_write_called:
  "(HTTP_WRITE_CALLED \<in> state (snd (internalEnd d t opt acl r))) = (HTTP_WRITE_CALLED \<in> state r)"
  by (cases "HTTP_WRITE_CALLED \<in> state r")
    (simp_all add: internalEnd_chunked internalEnd_fixed state_end_chunked_flag state_end_body_flag)

lemma body_accepted_others [simp]:
  "accepted_of Body (writeContinue r) = accepted_of Body r"
  "accepted_of Body (writeHeader_u64 k n r) = accepted_of Body r"
  "accepted_of Body (set_onWritable h r) = accepted_of Body r"
  "accepted_of Body (set_onAborted h r) = accepted_of Body r"
  "accepted_of Body (onData h r) = accepted_of Body r"
  by (simp_all add: writeContinue_def writeHeader_u64_def set_onWritable_def set_onAborted_def
      onData_def Let_def accepted_of_def writeUnsigned64_def)

lemma offset_others [simp]:
  "offset (writeContinue r) = offset r"
  "offset (writeHeader_u64 k n r) = offset r"
  "offset (set_onWritable h r) = offset r"
  "offset (set_onAborted h r) = offset r"
  "offset (onData h r) = offset r"
  by (simp_all add: writeContinue_def writeHeader_u64_def set_onWritable_def set_onAborted_def
      onData_def Let_def)

lemma write_response_empty: "write_response [] r = (True, writeStatus HTTP_200_OK r)"
  by (simp add: write_response_def)

lemma call_body:
  assumes "HTTP_WRITE_CALLED \<notin> state (run_op c r)"
  shows "HTTP_WRITE_CALLED \<notin> state r \<and>
    (\<exists>w \<le> (if is_end c then length (payload c) else 0).
       offset (run_op c r) = offset r + w \<and>
       accepted_of Body (run_op c r) = accepted_of Body r + w)"
proof (cases c)
  case (End d)
  with assms have fixed: "HTTP_WRITE_CALLED \<notin> state r"
    by (simp add: end_response_def internalEnd_write_called)
  from End internalEnd_body [OF fixed, of d "length d" False True] fixed show ?thesis
    by (simp add: end_response_def)
next
  case (TryEnd d t)
  with assms have fixed: "HTTP_WRITE_CALLED \<notin> state r"
    by (simp add: tryEnd_def Let_def internalEnd_write_called)
  from TryEnd internalEnd_body [OF fixed, of d t True True] fixed show ?thesis
    by (simp add: tryEnd_def Let_def)
next
  case (Write d)
  with assms have "HTTP_WRITE_CALLED \<notin> state r" and "d = []"
    by (simp_all add: state_write_response_chunked)
  with Write show ?thesis
    by (simp add: write_response_empty)
qed (use assms in simp_all)

lemma calls_body:
  assumes "HTTP_WRITE_CALLED \<notin> state (run cs r)"
  shows "HTTP_WRITE_CALLED \<notin> state r \<and>
    (\<exists>w \<le> sum_list (map (\<lambda>c. length (payload c)) (filter is_end cs)).
       offset (run cs r) = offset r + w \<and>
       accepted_of Body (run cs r) = accepted_of Body r + w)"
  using assms
proof (induction cs arbitrary: r)
  case Nil
  then show ?case by simp
next
  case (Cons c cs)
  from Cons.prems have "HTTP_WRITE_CALLED \<notin> state (run cs (run_op c r))"
    by simp
  from Cons.IH [OF this] obtain v where
    fixed: "HTTP_WRITE_CALLED \<notin> state (run_op c r)"
    and v: "v \<le> sum_list (map (\<lambda>c. length (payload c)) (filter is_end cs))"
    and off': "offset (run cs (run_op c r)) = offset (run_op c r) + v"
    and acc': "accepted_of Body (run cs (run_op c r)) = accepted_of Body (run_op c r) + v"
    by blast
  from call_body [OF fixed] obtain w where
    fixed': "HTTP_WRITE_CALLED \<notin> state r"
    and w: "w \<le> (if is_end c then length (payload c) else 0)"
    and off: "offset (run_op c r) = offset r + w"
    and acc: "accepted_of Body (run_op c r) = accepted_of Body r + w"
    by blast
  have "w + v \<le> sum_list (map (\<lambda>c. length (payload c)) (filter is_end (c # cs)))"
    using w v by (simp split: if_splits)
  then show ?case
    using fixed' off off' acc acc'
    by (intro conjI exI [of _ "w + v"]) simp_all
qed

subsection \<open>The status line of an upgrade\<close>

lemma status_upgrade:
  "writes_of StatusLine (snd (upgrade K negotiate generate compression key proto ext r)) =
     writes_of StatusLine (writeStatus ''101 Switching Protocols'' r)"
  by (simp add: upgrade_def Let_def status_internalEnd writes_of_writeHeader
      writes_of_writeStatus split: option.splits)

subsection \<open>The bytes of the chunked paths\<close>

lemma wire_end_chunked:
  "wire (snd (end_chunked d r)) =
     wire r @
       (if d = [] then []
        else CRLF @ u32toaHex (unsigned_int (length d)) @ CRLF @
          take (nat (int_cast (length d))) d) @
       terminating_chunk"
  by (simp add: end_chunked_def Let_def terminating_chunk_def CRLF_def)

lemma timeouts_end_chunked: "timeouts (snd (end_chunked d r)) = Suc (timeouts r)"
  by (simp add: end_chunked_def Let_def)

lemma wire_write_response_sized:
  assumes "HTTP_WRITE_CALLED \<in> state r" and "HTTP_STATUS_CALLED \<in> state r" and "d \<noteq> []"
  shows "wire (snd (write_response d r)) =
     wire r @ CRLF @ u32toaHex (unsigned_int (length d)) @ CRLF @
       take (nat (int_cast (length d))) d"
  using assms by (simp add: write_response_def Let_def writeStatus_again CRLF_def)

lemma write_response_flags:
  "d \<noteq> [] \<Longrightarrow>
   HTTP_WRITE_CALLED \<in> state (snd (write_response d r)) \<and>
   HTTP_STATUS_CALLED \<in> state (snd (write_response d r))"
  by (simp add: state_write_response_chunked state_write_response)

lemma write_response_pending:
  "(HTTP_RESPONSE_PENDING \<in> state (snd (write_response d r))) =
     (HTTP_RESPONSE_PENDING \<in> state r)"
  by (simp add: write_response_def Let_def)

lemma size_wraps: "unsigned_int 4294967296 = 0 \<and> int_cast 4294967296 = 0"
  by (simp add: unsigned_int_def int_cast_def)

text \<open>A chunk of \<open>2 ^ 32\<close> bytes: the size written is 0 and no data follows.\<close>

lemma wire_write_response_wrapped:
  assumes "HTTP_WRITE_CALLED \<in> state r" and "HTTP_STATUS_CALLED \<in> state r"
    and "length d = 4294967296"
  shows "wire (snd (write_response d r)) = wire r @ CRLF @ ''0'' @ CRLF"
proof -
  from assms(3) have "d \<noteq> []"
    by auto
  from wire_write_response_sized [OF assms(1,2) this] assms(3) size_wraps
  have "wire (snd (write_response d r)) = wire r @ CRLF @ u32toaHex 0 @ CRLF"
    by simp
  moreover have "u32toaHex 0 = ''0''"
    by (simp add: u32toaHex_zero)
  ultimately show ?thesis
    by simp
qed

subsection \<open>The end of a fixed-length call\<close>



lemma write_response_unstalled:
  assumes "env r = []" and "HTTP_WRITE_CALLED \<in> state r" and "HTTP_STATUS_CALLED \<in> state r"
  shows "fst (write_response d r)"
  using assms
  by (simp add: write_response_def Let_def writeStatus_again answer_def writeUnsignedHex_def
      put_def Super_write_def)

section \<open>The claims\<close>




text \<open>
  C2. At most one status line is ever written: after any sequence of calls on a fresh
  response, the writes of \<open>writeStatus\<close> are those of one status line, the one of the
  first status-setting call (an explicit \<open>writeStatus\<close>, or the default 200 OK of a
  header, body or end call), or none when there was no such call; and once a status has
  been set, a later \<open>writeStatus\<close> leaves the response and its log as they are. An
  \<open>upgrade\<close> after the sequence adds its 101 status line only when no status was set
  before. The interim response of \<open>writeContinue\<close> is a message of its own, not the
  status line of the response.
\<close>

theorem one_status_line:
  "writes_of StatusLine (run cs (fresh nm e)) =
     (case first_status cs of None \<Rightarrow> [] | Some st \<Rightarrow> status_line st) \<and>
   (first_status cs \<noteq> None \<longrightarrow>
      run (cs @ [WriteStatus st']) (fresh nm e) = run cs (fresh nm e)) \<and>
   writes_of StatusLine
     (snd (upgrade K negotiate generate compression key proto ext (run cs (fresh nm e)))) =
     (case first_status cs of None \<Rightarrow> status_line ''101 Switching Protocols''
      | Some st \<Rightarrow> status_line st)"
proof -
  have "writes_of StatusLine (fresh nm e) = []"
    by (simp add: writes_of_def)
  then have a: "writes_of StatusLine (run cs (fresh nm e)) =
     (case first_status cs of None \<Rightarrow> [] | Some st \<Rightarrow> status_line st)"
    using status_run [of cs "fresh nm e"] by simp
  have flag: "(HTTP_STATUS_CALLED \<in> state (run cs (fresh nm e))) = (first_status cs \<noteq> None)"
    using status_run [of cs "fresh nm e"] by simp
  have b: "run (cs @ [WriteStatus st']) (fresh nm e) = run cs (fresh nm e)"
    if "first_status cs \<noteq> None"
    using that flag by (simp add: run_append writeStatus_again)
  have c: "writes_of StatusLine
     (snd (upgrade K negotiate generate compression key proto ext (run cs (fresh nm e)))) =
     (case first_status cs of None \<Rightarrow> status_line ''101 Switching Protocols''
      | Some st \<Rightarrow> status_line st)"
    using a flag
    by (cases "first_status cs")
      (simp_all add: status_upgrade writes_of_writeStatus status_line_def)
  from a b c show ?thesis
    by blast
qed

theorem one_status_line_witness:
  "first_status [WriteHeaderU64 ''n'' 1, WriteStatus ''404 Not Found'', Write ''x''] =
     Some ''404 Not Found'' \<and>
   writes_of StatusLine
     (run [WriteHeaderU64 ''n'' 1, WriteStatus ''404 Not Found'', Write ''x''] (fresh True [])) =
     [''HTTP/1.1 '', ''404 Not Found'', CRLF] \<and>
   run ([WriteHeaderU64 ''n'' 1, WriteStatus ''404 Not Found'', Write ''x''] @
          [WriteStatus ''200 OK'']) (fresh True []) =
     run [WriteHeaderU64 ''n'' 1, WriteStatus ''404 Not Found'', Write ''x''] (fresh True [])"
  using one_status_line
    [of "[WriteHeaderU64 ''n'' 1, WriteStatus ''404 Not Found'', Write ''x'']" True "[]" "''200 OK''"]
  by (simp add: status_line_def int_cast_def)

text \<open>
  C3. The claim is that no call puts a header or body byte on the wire while
  \<open>HTTP_STATUS_CALLED\<close> is clear. The overload \<open>writeHeader(key, uint64_t)\<close> does
  not call \<open>writeStatus\<close>: on a fresh response it writes its header line and leaves the
  flag clear, where the overload with a string value writes the status line first.
\<close>

theorem writeHeader_u64_skips_status:
  "HTTP_STATUS_CALLED \<notin> state (run [WriteHeaderU64 ''Content-Length'' 5] (fresh True [])) \<and>
   writes_of StatusLine (run [WriteHeaderU64 ''Content-Length'' 5] (fresh True [])) = [] \<and>
   wire (run [WriteHeaderU64 ''Content-Length'' 5] (fresh True [])) = ''Content-Length: 5'' @ CRLF \<and>
   HTTP_STATUS_CALLED \<in> state (run [WriteHeader ''Content-Length'' ''5''] (fresh True [])) \<and>
   wire (run [WriteHeader ''Content-Length'' ''5''] (fresh True [])) =
     ''HTTP/1.1 200 OK'' @ CRLF @ ''Content-Length: 5'' @ CRLF"
  by (simp add: eval_defs writes_of_def wire_def cong: let_weak_cong)

text \<open>
  C4. The claim is that \<open>write\<close> sends no zero-size chunk, so that the terminating
  chunk comes from \<open>internalEnd\<close> alone. On a chunked response \<open>write\<close> with no data
  does return true and leave the response and its log as they are. But \<open>write\<close> tests
  \<open>data.length()\<close> and then writes \<open>(unsigned int) data.length()\<close> as the size and
  \<open>(int) data.length()\<close> bytes of data: for a chunk of \<open>2 ^ 32\<close> bytes it returns true
  having sent CRLF, the size 0 and CRLF and no data, and the CRLF that opens the chunk of
  the next \<open>write\<close> completes the terminating chunk on the wire, with
  \<open>HTTP_RESPONSE_PENDING\<close> still set.
\<close>

theorem write_zero_size_chunk:
  "write_response [] (snd (write_response ''a'' (fresh True []))) =
     (True, snd (write_response ''a'' (fresh True []))) \<and>
   length (replicate 4294967296 (CHR ''x'')) = 4294967296 \<and>
   fst (write_response (replicate 4294967296 (CHR ''x''))
     (snd (write_response ''a'' (fresh True [])))) \<and>
   wire (snd (write_response (replicate 4294967296 (CHR ''x''))
     (snd (write_response ''a'' (fresh True []))))) =
     wire (snd (write_response ''a'' (fresh True []))) @ CRLF @ ''0'' @ CRLF \<and>
   wire (snd (write_response ''b'' (snd (write_response (replicate 4294967296 (CHR ''x''))
     (snd (write_response ''a'' (fresh True []))))))) =
     wire (snd (write_response ''a'' (fresh True []))) @ terminating_chunk @ ''1'' @ CRLF @ ''b'' \<and>
   HTTP_RESPONSE_PENDING \<in> state (snd (write_response ''b''
     (snd (write_response (replicate 4294967296 (CHR ''x''))
       (snd (write_response ''a'' (fresh True [])))))))"
proof -
  define big :: string where "big = replicate 4294967296 (CHR ''x'')"
  define r where "r = snd (write_response ''a'' (fresh True []))"
  have len: "length big = 4294967296"
    by (simp only: big_def length_replicate)
  have r: "HTTP_WRITE_CALLED \<in> state r \<and> HTTP_STATUS_CALLED \<in> state r"
    using write_response_flags [of "''a''" "fresh True []"] by (simp add: r_def)
  have idle: "env r = []"
    by (simp add: r_def eval_defs cong: let_weak_cong)
  have pending: "HTTP_RESPONSE_PENDING \<in> state r"
    by (simp add: r_def write_response_pending fresh_def)
  have some: "big \<noteq> []"
    using len by auto
  have empty: "write_response [] r = (True, r)"
    using r by (simp add: write_response_empty writeStatus_again)
  have ok: "fst (write_response big r)"
    using idle r by (simp add: write_response_unstalled)
  have zero: "wire (snd (write_response big r)) = wire r @ CRLF @ ''0'' @ CRLF"
    using r len by (simp add: wire_write_response_wrapped)
  have "wire (snd (write_response ''b'' (snd (write_response big r)))) =
      wire (snd (write_response big r)) @ CRLF @ u32toaHex (unsigned_int (length ''b'')) @ CRLF @
        take (nat (int_cast (length ''b''))) ''b''"
    using write_response_flags [OF some, of r]
    by (intro wire_write_response_sized) simp_all
  moreover have "u32toaHex (unsigned_int (length ''b'')) = ''1'' \<and>
      take (nat (int_cast (length ''b''))) ''b'' = ''b''"
    by (simp add: eval_defs)
  ultimately have next_chunk: "wire (snd (write_response ''b'' (snd (write_response big r)))) =
      wire r @ terminating_chunk @ ''1'' @ CRLF @ ''b''"
    using zero by (simp add: terminating_chunk_def)
  have still: "HTTP_RESPONSE_PENDING \<in> state (snd (write_response ''b'' (snd (write_response big r))))"
    using pending by (simp add: write_response_pending)
  from empty len ok zero next_chunk still show ?thesis
    unfolding big_def r_def by (intro conjI)
qed

text \<open>
  C5, as amended. For every sequence of calls that leaves a response out of chunked mode
  (a fixed-length response), the write offset never decreases along the sequence, equals
  the number of body bytes the transport accepted, and is at most the number of body bytes
  passed to \<open>end\<close> and \<open>tryEnd\<close>. It stays within the declared total only as long
  as the calls pass no more than that.
\<close>

theorem offset_counts_body_bytes:
  "HTTP_WRITE_CALLED \<notin> state (run (cs @ cs') (fresh nm e)) \<Longrightarrow>
   getWriteOffset (run cs (fresh nm e)) \<le> getWriteOffset (run (cs @ cs') (fresh nm e)) \<and>
   getWriteOffset (run (cs @ cs') (fresh nm e)) =
     accepted_of Body (run (cs @ cs') (fresh nm e)) \<and>
   getWriteOffset (run (cs @ cs') (fresh nm e)) \<le>
     sum_list (map (\<lambda>c. length (payload c)) (filter is_end (cs @ cs')))"
proof -
  assume fixed: "HTTP_WRITE_CALLED \<notin> state (run (cs @ cs') (fresh nm e))"
  from calls_body [OF fixed] obtain w where
    w: "w \<le> sum_list (map (\<lambda>c. length (payload c)) (filter is_end (cs @ cs')))"
    and off: "offset (run (cs @ cs') (fresh nm e)) = offset (fresh nm e) + w"
    and acc: "accepted_of Body (run (cs @ cs') (fresh nm e)) = accepted_of Body (fresh nm e) + w"
    by blast
  from fixed have "HTTP_WRITE_CALLED \<notin> state (run cs' (run cs (fresh nm e)))"
    by (simp add: run_append)
  from calls_body [OF this] obtain v where
    "offset (run cs' (run cs (fresh nm e))) = offset (run cs (fresh nm e)) + v"
    by blast
  moreover have "accepted_of Body (fresh nm e) = 0"
    by (simp add: accepted_of_def fresh_def)
  ultimately show ?thesis
    using w off acc by (simp add: getWriteOffset_def run_append)
qed

theorem offset_counts_body_bytes_witness:
  "HTTP_WRITE_CALLED \<notin> state (run ([WriteHeader ''a'' ''b'', TryEnd ''abc'' 5] @ [End ''de'']) (fresh True [])) \<and>
   getWriteOffset (run [WriteHeader ''a'' ''b'', TryEnd ''abc'' 5] (fresh True [])) = 3 \<and>
   getWriteOffset (run ([WriteHeader ''a'' ''b'', TryEnd ''abc'' 5] @ [End ''de'']) (fresh True [])) = 5 \<and>
   accepted_of Body (run ([WriteHeader ''a'' ''b'', TryEnd ''abc'' 5] @ [End ''de'']) (fresh True [])) = 5 \<and>
   sum_list (map (\<lambda>c. length (payload c))
     (filter is_end ([WriteHeader ''a'' ''b'', TryEnd ''abc'' 5] @ [End ''de'']))) = 5"
proof -
  have a: "HTTP_WRITE_CALLED \<notin>
      state (run ([WriteHeader ''a'' ''b'', TryEnd ''abc'' 5] @ [End ''de'']) (fresh True []))"
    by (simp add: end_response_def tryEnd_def Let_def internalEnd_write_called)
  have c: "getWriteOffset (run [WriteHeader ''a'' ''b'', TryEnd ''abc'' 5] (fresh True [])) = 3"
    by (simp add: eval_defs getWriteOffset_def cong: let_weak_cong)
  have d: "getWriteOffset (run ([WriteHeader ''a'' ''b'', TryEnd ''abc'' 5] @ [End ''de''])
      (fresh True [])) = 5"
    by (simp add: eval_defs getWriteOffset_def cong: let_weak_cong)
  from offset_counts_body_bytes [OF a] a c d show ?thesis
    by simp
qed

text \<open>
  C5 as stated fails: \<open>tryEnd("abc", 2)\<close> on a fresh response declares a content length
  of 2 and leaves the offset at 3.
\<close>

theorem offset_exceeds_total_counterexample:
  "writes_of Header (run [TryEnd ''abc'' 2] (fresh True [])) =
     [''Content-Length: '', ''2'', CRLF @ CRLF] \<and>
   getWriteOffset (run [TryEnd ''abc'' 2] (fresh True [])) = 3 \<and>
   \<not> getWriteOffset (run [TryEnd ''abc'' 2] (fresh True [])) \<le> 2"
  by (simp add: eval_defs writes_of_def getWriteOffset_def cong: let_weak_cong)




text \<open>
  C7. In an upgrade with compression enabled and a non-empty extensions offer, the
  options the negotiator is built with contain \<open>CLIENT_NO_CONTEXT_TAKEOVER\<close>; the
  socket is initialised with compression on exactly when the negotiated options contain
  \<open>PERMESSAGE_DEFLATE\<close>; and its compress options are the configured compression
  masked to \<open>SHARED_COMPRESSOR\<close> when the negotiated options contain
  \<open>SERVER_NO_CONTEXT_TAKEOVER\<close>, and the configured compression otherwise.
\<close>

theorem upgrade_compression:
  "compression \<noteq> DISABLED K \<Longrightarrow> ext \<noteq> [] \<Longrightarrow>
   (let n = fst (upgrade K negotiate generate compression key proto ext r);
        w = wantedOptions K compression;
        negotiated = fst (negotiate w ext)
    in wanted n = Some w \<and>
       w AND CLIENT_NO_CONTEXT_TAKEOVER K = CLIENT_NO_CONTEXT_TAKEOVER K \<and>
       perMessageDeflate n = (negotiated AND PERMESSAGE_DEFLATE K \<noteq> 0) \<and>
       compressOptions n =
         (if negotiated AND SERVER_NO_CONTEXT_TAKEOVER K \<noteq> 0
          then compression AND SHARED_COMPRESSOR K else compression))"
  by (simp add: upgrade_negotiation negotiate_compression_def Let_def
      wanted_client_no_context_takeover)

theorem upgrade_compression_witness:
  "(10::int) \<noteq> DISABLED example_consts \<and>
   wanted (fst (upgrade example_consts granting id 10 ''key'' [] ''permessage-deflate'' (fresh True []))) = Some 5 \<and>
   (5::int) AND CLIENT_NO_CONTEXT_TAKEOVER example_consts = CLIENT_NO_CONTEXT_TAKEOVER example_consts \<and>
   perMessageDeflate (fst (upgrade example_consts granting id 10 ''key'' [] ''permessage-deflate'' (fresh True []))) \<and>
   compressOptions (fst (upgrade example_consts granting id 10 ''key'' [] ''permessage-deflate'' (fresh True []))) = 10 \<and>
   compressOptions (fst (upgrade example_consts granting id 1 ''key'' [] ''permessage-deflate'' (fresh True []))) = 1"
proof -
  have a: "(10::int) \<noteq> DISABLED example_consts" and b: "(1::int) \<noteq> DISABLED example_consts"
    by (simp_all add: example_consts_def)
  have c: "''permessage-deflate'' \<noteq> []"
    by simp
  from upgrade_compression [OF a c, of granting id "''key''" "[]" "fresh True []"]
    upgrade_compression [OF b c, of granting id "''key''" "[]" "fresh True []"] a
  show ?thesis
    by (simp add: Let_def wantedOptions_def example_consts_def granting_def)
qed

text \<open>
  C8. In an upgrade with compression enabled, a non-empty extensions offer and a
  non-empty counter-offer, the value written as \<open>Sec-WebSocket-Extensions\<close> is the
  counter-offer followed by \<open>; server_max_window_bits=n\<close> when the configured
  compression has the \<open>DEDICATED_COMPRESSOR\<close> bit and is not the 256KB tier, with \<open>n\<close>
  10, 11, 12, 13, 14 for the 8KB, 16KB, 32KB, 64KB and 128KB tiers and 9 for any other
  (3KB, 4KB); for the 256KB tier and for a configuration without the dedicated bit it is
  the counter-offer alone.
\<close>

theorem server_max_window_bits:
  "distinct_tiers K \<Longrightarrow> compression \<noteq> DISABLED K \<Longrightarrow> ext \<noteq> [] \<Longrightarrow>
   snd (negotiate (wantedOptions K compression) ext) \<noteq> [] \<Longrightarrow>
   (let offer = snd (negotiate (wantedOptions K compression) ext);
        bits = (if compression = DEDICATED_COMPRESSOR_8KB K then ''10''
                else if compression = DEDICATED_COMPRESSOR_16KB K then ''11''
                else if compression = DEDICATED_COMPRESSOR_32KB K then ''12''
                else if compression = DEDICATED_COMPRESSOR_64KB K then ''13''
                else if compression = DEDICATED_COMPRESSOR_128KB K then ''14''
                else ''9'');
        val = (if compression AND DEDICATED_COMPRESSOR K \<noteq> 0 \<and>
                  compression \<noteq> DEDICATED_COMPRESSOR_256KB K
               then offer @ ''; server_max_window_bits='' @ bits else offer);
        res = upgrade K negotiate generate compression key proto ext r
    in extensions (fst res) = Some val \<and>
       take (nat (int_cast (length val))) val \<in> set (writes_of Header (snd res)) \<and>
       (compression = DEDICATED_COMPRESSOR_256KB K \<longrightarrow> val = offer) \<and>
       (compression AND DEDICATED_COMPRESSOR K = 0 \<longrightarrow> val = offer) \<and>
       (compression = DEDICATED_COMPRESSOR_16KB K \<longrightarrow> bits = ''11'') \<and>
       (compression = DEDICATED_COMPRESSOR_32KB K \<longrightarrow> bits = ''12'') \<and>
       (compression = DEDICATED_COMPRESSOR_64KB K \<longrightarrow> bits = ''13'') \<and>
       (compression = DEDICATED_COMPRESSOR_128KB K \<longrightarrow> bits = ''14''))"
proof -
  assume tiers: "distinct_tiers K" and on: "compression \<noteq> DISABLED K" and ext: "ext \<noteq> []"
    and offer: "snd (negotiate (wantedOptions K compression) ext) \<noteq> []"
  define val where "val =
     (if compression AND DEDICATED_COMPRESSOR K \<noteq> 0 \<and>
         compression \<noteq> DEDICATED_COMPRESSOR_256KB K
      then snd (negotiate (wantedOptions K compression) ext) @ ''; server_max_window_bits='' @
        (if compression = DEDICATED_COMPRESSOR_8KB K then ''10''
         else if compression = DEDICATED_COMPRESSOR_16KB K then ''11''
         else if compression = DEDICATED_COMPRESSOR_32KB K then ''12''
         else if compression = DEDICATED_COMPRESSOR_64KB K then ''13''
         else if compression = DEDICATED_COMPRESSOR_128KB K then ''14''
         else ''9'')
      else snd (negotiate (wantedOptions K compression) ext))"
  have n: "extensions (negotiate_compression K negotiate compression ext) = Some val"
    using on ext offer
    by (auto simp: negotiate_compression_def Let_def extensionsHeader_def
        maxServerWindowBits_def to_string_bits val_def)
  note w = upgrade_writes_extensions [OF n, of generate key proto r]
  from tiers have "DEDICATED_COMPRESSOR_16KB K \<noteq> DEDICATED_COMPRESSOR_8KB K"
    and "DEDICATED_COMPRESSOR_32KB K \<noteq> DEDICATED_COMPRESSOR_8KB K"
    and "DEDICATED_COMPRESSOR_32KB K \<noteq> DEDICATED_COMPRESSOR_16KB K"
    and "DEDICATED_COMPRESSOR_64KB K \<noteq> DEDICATED_COMPRESSOR_8KB K"
    and "DEDICATED_COMPRESSOR_64KB K \<noteq> DEDICATED_COMPRESSOR_16KB K"
    and "DEDICATED_COMPRESSOR_64KB K \<noteq> DEDICATED_COMPRESSOR_32KB K"
    and "DEDICATED_COMPRESSOR_128KB K \<noteq> DEDICATED_COMPRESSOR_8KB K"
    and "DEDICATED_COMPRESSOR_128KB K \<noteq> DEDICATED_COMPRESSOR_16KB K"
    and "DEDICATED_COMPRESSOR_128KB K \<noteq> DEDICATED_COMPRESSOR_32KB K"
    and "DEDICATED_COMPRESSOR_128KB K \<noteq> DEDICATED_COMPRESSOR_64KB K"
    by (auto simp: distinct_tiers_def)
  with n w show ?thesis
    unfolding Let_def val_def [symmetric]
    by (simp add: upgrade_negotiation val_def)
qed

theorem server_max_window_bits_witness:
  "distinct_tiers example_consts \<and> (10::int) \<noteq> DISABLED example_consts \<and>
   (10::int) = DEDICATED_COMPRESSOR_16KB example_consts \<and>
   snd (granting (wantedOptions example_consts 10) ''permessage-deflate'') = ''permessage-deflate'' \<and>
   extensions (fst (upgrade example_consts granting id 10 ''key'' [] ''permessage-deflate'' (fresh True []))) =
     Some ''permessage-deflate; server_max_window_bits=11'' \<and>
   ''permessage-deflate; server_max_window_bits=11'' \<in>
     set (writes_of Header
       (snd (upgrade example_consts granting id 10 ''key'' [] ''permessage-deflate'' (fresh True [])))) \<and>
   extensions (fst (upgrade example_consts granting id 26 ''key'' [] ''permessage-deflate'' (fresh True []))) =
     Some ''permessage-deflate'' \<and>
   extensions (fst (upgrade example_consts granting id 1 ''key'' [] ''permessage-deflate'' (fresh True []))) =
     Some ''permessage-deflate''"
proof -
  have d: "distinct_tiers example_consts"
    by (simp add: distinct_tiers_def example_consts_def)
  have a: "(10::int) \<noteq> DISABLED example_consts" and a': "(26::int) \<noteq> DISABLED example_consts"
    and a'': "(1::int) \<noteq> DISABLED example_consts"
    by (simp_all add: example_consts_def)
  have c: "''permessage-deflate'' \<noteq> []"
    by simp
  have o: "snd (granting (wantedOptions example_consts x) ''permessage-deflate'') \<noteq> []" for x
    by (simp add: granting_def)
  from server_max_window_bits
      [of example_consts 10 "''permessage-deflate''" granting id "''key''" "[]" "fresh True []"]
    server_max_window_bits
      [of example_consts 26 "''permessage-deflate''" granting id "''key''" "[]" "fresh True []"]
    server_max_window_bits
      [of example_consts 1 "''permessage-deflate''" granting id "''key''" "[]" "fresh True []"]
    d a a' a'' c o
  show ?thesis
    by (simp add: Let_def example_consts_def granting_def int_cast_def)
qed

text \<open>
  C9, as amended. On a response that is not in chunked mode, \<open>end\<close> with no data called
  twice puts the same bytes on the wire as called once: the second call writes nothing.
\<close>

theorem end_twice_fixed:
  "HTTP_WRITE_CALLED \<notin> state r \<Longrightarrow>
   socket_writes (end_response [] (end_response [] r)) = socket_writes (end_response [] r) \<and>
   wire (end_response [] (end_response [] r)) = wire (end_response [] r)"
  using end_response_flags [of r "[]"] end_response_again [of "end_response [] r"]
  by simp

theorem end_twice_fixed_witness:
  "HTTP_WRITE_CALLED \<notin> state (fresh True []) \<and>
   wire (end_response [] (fresh True [])) =
     ''HTTP/1.1 200 OK'' @ CRLF @ ''Content-Length: 0'' @ CRLF @ CRLF \<and>
   wire (end_response [] (end_response [] (fresh True []))) =
     ''HTTP/1.1 200 OK'' @ CRLF @ ''Content-Length: 0'' @ CRLF @ CRLF"
proof -
  have h: "HTTP_WRITE_CALLED \<notin> state (fresh True [])"
    by (simp add: fresh_def)
  have once: "wire (end_response [] (fresh True [])) =
     ''HTTP/1.1 200 OK'' @ CRLF @ ''Content-Length: 0'' @ CRLF @ CRLF"
    by (simp add: eval_defs wire_def cong: let_weak_cong)
  from end_twice_fixed [OF h] once h show ?thesis
    by simp
qed

text \<open>
  C9 as stated fails in chunked mode: after \<open>write("a")\<close>, the second \<open>end()\<close> writes
  the terminating chunk once more.
\<close>

theorem end_twice_chunked_counterexample:
  "wire (end_response [] (end_response [] (snd (write_response ''a'' (fresh True []))))) =
     wire (end_response [] (snd (write_response ''a'' (fresh True [])))) @ terminating_chunk \<and>
   wire (end_response [] (end_response [] (snd (write_response ''a'' (fresh True []))))) \<noteq>
     wire (end_response [] (snd (write_response ''a'' (fresh True []))))"
  by (simp add: eval_defs wire_def terminating_chunk_def cong: let_weak_cong)

text \<open>
  C10. On a response in chunked mode the result of \<open>internalEnd\<close>, its return value
  and the response with its log, is the same for every value of \<open>optional\<close>, of
  \<open>totalSize\<close> and of \<open>allowContentLength\<close>, so that \<open>tryEnd\<close> leaves the response
  that \<open>end\<close> leaves; whatever the transport answers, the call puts the status line if
  none was sent, the chunk of its data if there is any, and the terminating chunk on the
  wire, arms a timeout and returns true, and \<open>tryEnd\<close> reports success and a finished
  response.
\<close>

theorem chunked_end_always_succeeds:
  "HTTP_WRITE_CALLED \<in> state r \<Longrightarrow>
   fst (internalEnd data totalSize optional acl r) \<and>
   fst (tryEnd data totalSize r) = (True, True) \<and>
   internalEnd data totalSize optional acl r = internalEnd data totalSize' optional' acl' r \<and>
   snd (tryEnd data totalSize r) = end_response data r \<and>
   wire (snd (internalEnd data totalSize optional acl r)) =
     wire (writeStatus HTTP_200_OK r) @
       (if data = [] then []
        else CRLF @ u32toaHex (unsigned_int (length data)) @ CRLF @
          take (nat (int_cast (length data))) data) @
       terminating_chunk \<and>
   timeouts (snd (internalEnd data totalSize optional acl r)) = Suc (timeouts r)"
  using end_chunked_done [of data "writeStatus HTTP_200_OK r"]
    wire_end_chunked [of data "writeStatus HTTP_200_OK r"]
    timeouts_end_chunked [of data "writeStatus HTTP_200_OK r"]
  by (simp add: internalEnd_chunked tryEnd_def end_response_def hasResponded_def Let_def)

theorem chunked_end_always_succeeds_witness:
  "HTTP_WRITE_CALLED \<in> state (snd (write_response ''ab'' (fresh True busy))) \<and>
   env (snd (write_response ''ab'' (fresh True busy))) =
     [(0, True), (0, True), (0, True), (0, True), (0, True)] \<and>
   fst (tryEnd ''xyz'' 0 (snd (write_response ''ab'' (fresh True busy)))) = (True, True) \<and>
   fst (internalEnd ''xyz'' 0 True True (snd (write_response ''ab'' (fresh True busy)))) \<and>
   internalEnd ''xyz'' 0 True True (snd (write_response ''ab'' (fresh True busy))) =
     internalEnd ''xyz'' 3 False True (snd (write_response ''ab'' (fresh True busy))) \<and>
   snd (tryEnd ''xyz'' 0 (snd (write_response ''ab'' (fresh True busy)))) =
     end_response ''xyz'' (snd (write_response ''ab'' (fresh True busy))) \<and>
   wire (snd (internalEnd ''xyz'' 0 True True (snd (write_response ''ab'' (fresh True busy))))) =
     wire (snd (write_response ''ab'' (fresh True busy))) @
       CRLF @ ''3'' @ CRLF @ ''xyz'' @ terminating_chunk \<and>
   timeouts (snd (internalEnd ''xyz'' 0 True True (snd (write_response ''ab'' (fresh True busy))))) =
     Suc (timeouts (snd (write_response ''ab'' (fresh True busy))))"
proof -
  let ?r = "snd (write_response ''ab'' (fresh True busy))"
  have h: "HTTP_WRITE_CALLED \<in> state ?r"
    by (simp add: state_write_response_chunked)
  have s: "writeStatus HTTP_200_OK ?r = ?r"
    by (simp add: state_write_response writeStatus_again)
  have e: "env ?r = [(0, True), (0, True), (0, True), (0, True), (0, True)]"
    by (simp add: eval_defs busy_def cong: let_weak_cong)
  have size: "(if ''xyz'' = [] then []
       else CRLF @ u32toaHex (unsigned_int (length ''xyz'')) @ CRLF @
         take (nat (int_cast (length ''xyz''))) ''xyz'') = CRLF @ ''3'' @ CRLF @ ''xyz''"
    by (simp add: eval_defs)
  note ended = chunked_end_always_succeeds [OF h, of "''xyz''" 0 True True 3 False True]
  from ended have "fst (tryEnd ''xyz'' 0 ?r) = (True, True)"
      and "fst (internalEnd ''xyz'' 0 True True ?r)"
      and "internalEnd ''xyz'' 0 True True ?r = internalEnd ''xyz'' 3 False True ?r"
      and "snd (tryEnd ''xyz'' 0 ?r) = end_response ''xyz'' ?r"
      and "timeouts (snd (internalEnd ''xyz'' 0 True True ?r)) = Suc (timeouts ?r)"
    by blast+
  moreover from ended have "wire (snd (internalEnd ''xyz'' 0 True True ?r)) =
      wire (writeStatus HTTP_200_OK ?r) @
        (if ''xyz'' = [] then []
         else CRLF @ u32toaHex (unsigned_int (length ''xyz'')) @ CRLF @
           take (nat (int_cast (length ''xyz''))) ''xyz'') @
        terminating_chunk"
    by blast
  then have "wire (snd (internalEnd ''xyz'' 0 True True ?r)) =
      wire ?r @ CRLF @ ''3'' @ CRLF @ ''xyz'' @ terminating_chunk"
    unfolding s size by simp
  ultimately show ?thesis
    using h e by (intro conjI)
qed

end
